theory Spec2Isabelle
  imports Complex_Main "HOL-Library.Multiset"
begin

section \<open>JavaScript numbers\<close>

text \<open>
  Every number of \<^verbatim>\<open>server/routers.ts\<close> is an IEEE-754 double. The type \<open>number\<close>
  has the finite values, the two infinities and NaN. How a finite result is rounded to
  a double, and what \<^verbatim>\<open>Math.sin\<close>, \<^verbatim>\<open>Math.cos\<close> and \<^verbatim>\<open>Math.atan2\<close> return, is
  the arithmetic of the language and no code of this repository: it is the parameter
  \<open>rt\<close> of type \<open>runtime\<close>, and what is proved holds for every runtime. \<open>rnd rt x\<close>
  is the double that the finite, non-zero real \<open>x\<close> is rounded to (a small \<open>x\<close> may
  round to 0).
\<close>

datatype number = Fin real | PInf | NInf | NaN

record runtime =
  rnd :: "real \<Rightarrow> real"
  Math_sin :: "real \<Rightarrow> real"
  Math_cos :: "real \<Rightarrow> real"
  Math_atan2 :: "real \<Rightarrow> real \<Rightarrow> real"

text \<open>
  The result of an operation whose exact value is \<open>x\<close>. From \<open>MAX_OVERFLOW\<close> on (the
  largest double plus half a unit in its last place) round-to-nearest gives an
  infinity; zero is a double and stays; every other value is rounded. The sign of zero
  is dropped. A decimal literal of the source stands for the double nearest to it.
\<close>

definition MAX_OVERFLOW :: real where
  "MAX_OVERFLOW = 2 ^ 1024 - 2 ^ 970"

definition fin :: "runtime \<Rightarrow> real \<Rightarrow> number" where
  "fin rt x =
     (if MAX_OVERFLOW \<le> x then PInf
      else if x \<le> - MAX_OVERFLOW then NInf
      else if x = 0 then Fin 0
      else Fin (rnd rt x))"

fun js_neg :: "number \<Rightarrow> number" where
  "js_neg (Fin a) = Fin (- a)"
| "js_neg PInf = NInf"
| "js_neg NInf = PInf"
| "js_neg NaN = NaN"

fun js_add :: "runtime \<Rightarrow> number \<Rightarrow> number \<Rightarrow> number" where
  "js_add rt (Fin a) (Fin b) = fin rt (a + b)"
| "js_add rt (Fin a) PInf = PInf"
| "js_add rt (Fin a) NInf = NInf"
| "js_add rt PInf (Fin b) = PInf"
| "js_add rt PInf PInf = PInf"
| "js_add rt PInf NInf = NaN"
| "js_add rt NInf (Fin b) = NInf"
| "js_add rt NInf PInf = NaN"
| "js_add rt NInf NInf = NInf"
| "js_add rt NaN y = NaN"
| "js_add rt x NaN = NaN"

definition js_sub :: "runtime \<Rightarrow> number \<Rightarrow> number \<Rightarrow> number" where
  "js_sub rt x y = js_add rt x (js_neg y)"

fun js_mul :: "runtime \<Rightarrow> number \<Rightarrow> number \<Rightarrow> number" where
  "js_mul rt (Fin a) (Fin b) = fin rt (a * b)"
| "js_mul rt (Fin a) PInf = (if a = 0 then NaN else if 0 < a then PInf else NInf)"
| "js_mul rt (Fin a) NInf = (if a = 0 then NaN else if 0 < a then NInf else PInf)"
| "js_mul rt PInf (Fin b) = (if b = 0 then NaN else if 0 < b then PInf else NInf)"
| "js_mul rt NInf (Fin b) = (if b = 0 then NaN else if 0 < b then NInf else PInf)"
| "js_mul rt PInf PInf = PInf"
| "js_mul rt PInf NInf = NInf"
| "js_mul rt NInf PInf = NInf"
| "js_mul rt NInf NInf = PInf"
| "js_mul rt NaN y = NaN"
| "js_mul rt x NaN = NaN"

text \<open>
  The source divides by the literals 2, 40, 60, 180 and 1000 only, so division is
  modelled for a positive finite divisor \<open>c\<close>.
\<close>

fun js_div_by :: "runtime \<Rightarrow> number \<Rightarrow> real \<Rightarrow> number" where
  "js_div_by rt (Fin a) c = fin rt (a / c)"
| "js_div_by rt PInf c = PInf"
| "js_div_by rt NInf c = NInf"
| "js_div_by rt NaN c = NaN"

fun js_sqrt :: "runtime \<Rightarrow> number \<Rightarrow> number" where
  "js_sqrt rt (Fin a) = (if a < 0 then NaN else fin rt (sqrt a))"
| "js_sqrt rt PInf = PInf"
| "js_sqrt rt NInf = NaN"
| "js_sqrt rt NaN = NaN"

fun js_sin :: "runtime \<Rightarrow> number \<Rightarrow> number" where
  "js_sin rt (Fin a) = Fin (Math_sin rt a)"
| "js_sin rt x = NaN"

fun js_cos :: "runtime \<Rightarrow> number \<Rightarrow> number" where
  "js_cos rt (Fin a) = Fin (Math_cos rt a)"
| "js_cos rt x = NaN"

fun js_atan2 :: "runtime \<Rightarrow> number \<Rightarrow> number \<Rightarrow> number" where
  "js_atan2 rt (Fin y) (Fin x) = Fin (Math_atan2 rt y x)"
| "js_atan2 rt (Fin y) PInf = Fin 0"
| "js_atan2 rt (Fin y) NInf = fin rt (if 0 \<le> y then pi else - pi)"
| "js_atan2 rt PInf (Fin x) = fin rt (pi / 2)"
| "js_atan2 rt PInf PInf = fin rt (pi / 4)"
| "js_atan2 rt PInf NInf = fin rt (3 * pi / 4)"
| "js_atan2 rt NInf (Fin x) = fin rt (- (pi / 2))"
| "js_atan2 rt NInf PInf = fin rt (- (pi / 4))"
| "js_atan2 rt NInf NInf = fin rt (- (3 * pi / 4))"
| "js_atan2 rt NaN x = NaN"
| "js_atan2 rt y NaN = NaN"

text \<open>\<^verbatim>\<open>Math.PI\<close>\<close>

definition Math_PI :: "runtime \<Rightarrow> number" where
  "Math_PI rt = fin rt pi"

text \<open>The comparison \<^verbatim>\<open>x < y\<close>: false as soon as one side is NaN.\<close>

fun js_lt :: "number \<Rightarrow> number \<Rightarrow> bool" where
  "js_lt (Fin a) (Fin b) = (a < b)"
| "js_lt (Fin a) PInf = True"
| "js_lt NInf (Fin b) = True"
| "js_lt NInf PInf = True"
| "js_lt x y = False"

definition js_gt :: "number \<Rightarrow> number \<Rightarrow> bool" where
  "js_gt x y = js_lt y x"

fun is_finite :: "number \<Rightarrow> bool" where
  "is_finite (Fin a) = True"
| "is_finite x = False"

text \<open>
  The runtime of the examples: no rounding, and the functions of the reals. Where an
  example bears on the value of a total, the provider's numbers are doubles whose
  quotients and sums are doubles, and on those the doubles of the language yield what
  this runtime yields.
\<close>

definition atan2 :: "real \<Rightarrow> real \<Rightarrow> real" where
  "atan2 y x =
     (if 0 < x then arctan (y / x)
      else if x < 0 then (if 0 \<le> y then arctan (y / x) + pi else arctan (y / x) - pi)
      else if 0 < y then pi / 2 else if y < 0 then - (pi / 2) else 0)"

definition exact :: runtime where
  "exact = \<lparr>rnd = (\<lambda>x. x), Math_sin = sin, Math_cos = cos, Math_atan2 = atan2\<rparr>"

section \<open>The waypoint sequencer of calculateRoute\<close>

text \<open>
  \<^verbatim>\<open>server/routers.ts\<close>, lines 185 to 227. The elements of \<^verbatim>\<open>input.containers\<close> are
  of type \<^verbatim>\<open>any\<close>. \<^verbatim>\<open>parseFloat\<close> and \<^verbatim>\<open>String\<close> are built-ins of the language,
  so a container is modelled by what they yield: \<open>Container la lo n\<close> stands for an
  element \<open>c\<close> with \<^verbatim>\<open>parseFloat(String(c.latitude))\<close> = \<open>la\<close> and
  \<^verbatim>\<open>parseFloat(String(c.longitude))\<close> = \<open>lo\<close>, any double, NaN and the infinities
  included; \<open>Unreadable\<close> stands for an element on which the callback of
  \<^verbatim>\<open>containers.map\<close> throws a TypeError (\<^verbatim>\<open>null\<close>, whose property \<^verbatim>\<open>latitude\<close>
  cannot be read, or an element with a coordinate that \<^verbatim>\<open>String\<close> cannot convert).
\<close>

datatype exn = Error string | TypeError | DriverError

record waypoint =
  lat :: number
  lng :: number
  name :: string

datatype container = Unreadable | Container number number string

definition CODECA :: waypoint where
  "CODECA = \<lparr>lat = Fin (- 29.1750), lng = Fin (- 51.1850), name = ''Codeca (Garagem)''\<rparr>"

fun to_waypoints :: "container list \<Rightarrow> exn + waypoint list" where
  "to_waypoints [] = Inr []"
| "to_waypoints (Unreadable # cs) = Inl TypeError"
| "to_waypoints (Container la lo n # cs) =
     (case to_waypoints cs of
        Inl e \<Rightarrow> Inl e
      | Inr ws \<Rightarrow> Inr (\<lparr>lat = la, lng = lo, name = n\<rparr> # ws))"

text \<open>Lines 209 to 211: the planar distance from the current point to a waypoint.\<close>

definition distance :: "runtime \<Rightarrow> waypoint \<Rightarrow> waypoint \<Rightarrow> number" where
  "distance rt current w =
     (let dx = js_sub rt (lat w) (lat current);
          dy = js_sub rt (lng w) (lng current)
      in js_sqrt rt (js_add rt (js_mul rt dx dx) (js_mul rt dy dy)))"

text \<open>
  Lines 204 to 218: the \<^verbatim>\<open>for\<close> loop over the indices. Its state is the pair
  (\<^verbatim>\<open>nearest\<close>, \<^verbatim>\<open>minDistance\<close>); \<open>None\<close> stands for the initial \<^verbatim>\<open>-1\<close>.
\<close>

definition scan_step :: "runtime \<Rightarrow> waypoint \<Rightarrow> waypoint list \<Rightarrow> nat set \<Rightarrow> nat \<Rightarrow> nat option \<times> number \<Rightarrow> nat option \<times> number" where
  "scan_step rt current waypoints visited i s =
     (if i \<notin> visited then
        (let d = distance rt current (waypoints ! i)
         in if js_lt d (snd s) then (Some i, d) else s)
      else s)"

definition scan :: "runtime \<Rightarrow> waypoint \<Rightarrow> waypoint list \<Rightarrow> nat set \<Rightarrow> nat option \<times> number" where
  "scan rt current waypoints visited =
     fold (scan_step rt current waypoints visited) [0..<length waypoints] (None, PInf)"

text \<open>
  Lines 202 to 224: the \<^verbatim>\<open>while\<close> loop. The route starts as \<open>[CODECA]\<close> and only
  grows, so \<^verbatim>\<open>optimizedRoute[optimizedRoute.length - 1]\<close> is its last element. The
  loop has no bound of its own: where it never ends, \<open>sequence_loop\<close> is \<open>None\<close>.
\<close>

record seq_state =
  optimizedRoute :: "waypoint list"
  visited :: "nat set"

definition loop_body :: "runtime \<Rightarrow> waypoint list \<Rightarrow> seq_state \<Rightarrow> seq_state" where
  "loop_body rt waypoints st =
     (let current = last (optimizedRoute st)
      in case fst (scan rt current waypoints (visited st)) of
           None \<Rightarrow> st
         | Some nearest \<Rightarrow>
             st\<lparr>optimizedRoute := optimizedRoute st @ [waypoints ! nearest],
                visited := insert nearest (visited st)\<rparr>)"

partial_function (option) sequence_loop :: "runtime \<Rightarrow> waypoint list \<Rightarrow> seq_state \<Rightarrow> seq_state option" where
  "sequence_loop rt waypoints st =
     (if card (visited st) < length waypoints
      then sequence_loop rt waypoints (loop_body rt waypoints st)
      else Some st)"

text \<open>
  Lines 185 to 227 as a whole: \<open>None\<close> when the loop never ends, \<open>Some (Inl e)\<close> when
  \<open>e\<close> is thrown, \<open>Some (Inr tour)\<close> when the tour is built.
\<close>

definition sequence :: "runtime \<Rightarrow> container list \<Rightarrow> (exn + waypoint list) option" where
  "sequence rt containers =
     (if length containers = 0 then Some (Inl (Error ''No containers provided''))
      else case to_waypoints containers of
             Inl e \<Rightarrow> Some (Inl e)
           | Inr waypoints \<Rightarrow>
               (case sequence_loop rt waypoints \<lparr>optimizedRoute = [CODECA], visited = {}\<rparr> of
                  None \<Rightarrow> None
                | Some st \<Rightarrow> Some (Inr (optimizedRoute st @ [CODECA]))))"

section \<open>JavaScript values of the provider's response\<close>

text \<open>
  \<^verbatim>\<open>response.json()\<close> yields any JSON value. \<open>JUndefined\<close> is what reading a
  property that is not there gives.
\<close>

datatype jsvalue =
    JUndefined
  | JNull
  | JBool bool
  | JNum number
  | JStr string
  | JArr "jsvalue list"
  | JObj "(string \<times> jsvalue) list"

fun truthy :: "jsvalue \<Rightarrow> bool" where
  "truthy JUndefined = False"
| "truthy JNull = False"
| "truthy (JBool b) = b"
| "truthy (JNum n) = (n \<noteq> Fin 0 \<and> n \<noteq> NaN)"
| "truthy (JStr s) = (s \<noteq> [])"
| "truthy (JArr xs) = True"
| "truthy (JObj kvs) = True"

fun nullish :: "jsvalue \<Rightarrow> bool" where
  "nullish JUndefined = True"
| "nullish JNull = True"
| "nullish v = False"

text \<open>
  \<open>js_get v k\<close> is \<^verbatim>\<open>v.k\<close> for a value that is neither \<^verbatim>\<open>null\<close> nor
  \<^verbatim>\<open>undefined\<close> (on those the read throws a TypeError, which the callers check with
  \<open>nullish\<close> first) and for the names the source reads: \<^verbatim>\<open>code\<close>, \<^verbatim>\<open>routes\<close>,
  \<^verbatim>\<open>geometry\<close>, \<^verbatim>\<open>type\<close>, \<^verbatim>\<open>coordinates\<close>, \<^verbatim>\<open>distance\<close> and
  \<^verbatim>\<open>duration\<close>, none of which a string, an array, a number or a boolean has. Of a
  key that a parsed object text repeats, the last value counts. \<open>index0 v\<close> is
  \<^verbatim>\<open>v[0]\<close>.
\<close>

fun js_get :: "jsvalue \<Rightarrow> string \<Rightarrow> jsvalue" where
  "js_get (JObj kvs) k = (case map_of (rev kvs) k of None \<Rightarrow> JUndefined | Some v \<Rightarrow> v)"
| "js_get v k = JUndefined"

fun index0 :: "jsvalue \<Rightarrow> jsvalue" where
  "index0 (JArr xs) = (case xs of [] \<Rightarrow> JUndefined | x # _ \<Rightarrow> x)"
| "index0 (JStr s) = (case s of [] \<Rightarrow> JUndefined | c # _ \<Rightarrow> JStr [c])"
| "index0 (JObj kvs) = js_get (JObj kvs) ''0''"
| "index0 v = JUndefined"

text \<open>\<^verbatim>\<open>v || 0\<close>\<close>

definition or_zero :: "jsvalue \<Rightarrow> jsvalue" where
  "or_zero v = (if truthy v then v else JNum (Fin 0))"

text \<open>
  Converting a value to a string or to a number goes through the methods
  \<^verbatim>\<open>valueOf\<close> and \<^verbatim>\<open>toString\<close>. A parsed JSON text holds no function, so an object
  with a key \<^verbatim>\<open>toString\<close> of its own has no callable \<^verbatim>\<open>toString\<close>, while
  \<^verbatim>\<open>valueOf\<close> returns the object itself: the conversion throws a TypeError. An array
  is joined from the strings of its elements and throws when one of them does; every
  other value converts.
\<close>

fun unprintable :: "jsvalue \<Rightarrow> bool" where
  "unprintable (JObj kvs) = (''toString'' \<in> fst ` set kvs)"
| "unprintable (JArr xs) = (\<exists>x \<in> set xs. unprintable x)"
| "unprintable v = False"

text \<open>
  The division \<^verbatim>\<open>v / 1000\<close> first turns \<open>v\<close> into a number. An object that converts
  prints as \<^verbatim>\<open>[object Object]\<close>, which is no number. The number that the language
  reads from a string, or from the string of an array, is no code of this repository:
  it is the parameter \<open>conv\<close>.
\<close>

fun ToNumber :: "(jsvalue \<Rightarrow> number) \<Rightarrow> jsvalue \<Rightarrow> exn + number" where
  "ToNumber conv JUndefined = Inr NaN"
| "ToNumber conv JNull = Inr (Fin 0)"
| "ToNumber conv (JBool b) = Inr (Fin (if b then 1 else 0))"
| "ToNumber conv (JNum n) = Inr n"
| "ToNumber conv (JStr s) = Inr (conv (JStr s))"
| "ToNumber conv (JArr xs) = (if unprintable (JArr xs) then Inl TypeError else Inr (conv (JArr xs)))"
| "ToNumber conv (JObj kvs) = (if unprintable (JObj kvs) then Inl TypeError else Inr NaN)"

text \<open>\<^verbatim>\<open>v.length\<close>, for a value that is neither \<^verbatim>\<open>null\<close> nor \<^verbatim>\<open>undefined\<close>.\<close>

fun js_length :: "jsvalue \<Rightarrow> jsvalue" where
  "js_length (JArr xs) = JNum (Fin (real (length xs)))"
| "js_length (JStr s) = JNum (Fin (real (length s)))"
| "js_length (JObj kvs) = js_get (JObj kvs) ''length''"
| "js_length v = JUndefined"

text \<open>
  \<^verbatim>\<open>allPolylinePoints.concat(v)\<close>: the elements of an array are appended, any other
  value is appended as one element.
\<close>

fun concat_value :: "jsvalue list \<Rightarrow> jsvalue \<Rightarrow> jsvalue list" where
  "concat_value ps (JArr xs) = ps @ xs"
| "concat_value ps v = ps @ [v]"

section \<open>One leg: the provider call and the haversine estimate\<close>

text \<open>
  Lines 234 to 301. \<open>Rejected\<close>: \<^verbatim>\<open>await fetch(osrmUrl)\<close> or
  \<^verbatim>\<open>await response.json()\<close> throws (no network, a body that is no JSON).
  \<open>Body data\<close>: both return, and \<open>data\<close> is the parsed body. The source sets no
  timeout; a call that never answers is not modelled.
\<close>

datatype fetched = Rejected | Body jsvalue

record totals =
  allPolylinePoints :: "jsvalue list"
  totalDistance :: number
  totalDuration :: number

text \<open>Lines 272 to 279 and, word for word the same, lines 290 to 297.\<close>

definition haversine :: "runtime \<Rightarrow> waypoint \<Rightarrow> waypoint \<Rightarrow> number" where
  "haversine rt origin dest =
     (let R = Fin 6371;
          dLat = js_div_by rt (js_mul rt (js_sub rt (lat dest) (lat origin)) (Math_PI rt)) 180;
          dLng = js_div_by rt (js_mul rt (js_sub rt (lng dest) (lng origin)) (Math_PI rt)) 180;
          a = js_add rt
                (js_mul rt (js_sin rt (js_div_by rt dLat 2)) (js_sin rt (js_div_by rt dLat 2)))
                (js_mul rt
                  (js_mul rt
                    (js_mul rt (js_cos rt (js_div_by rt (js_mul rt (lat origin) (Math_PI rt)) 180))
                            (js_cos rt (js_div_by rt (js_mul rt (lat dest) (Math_PI rt)) 180)))
                    (js_sin rt (js_div_by rt dLng 2)))
                  (js_sin rt (js_div_by rt dLng 2)));
          c = js_mul rt (Fin 2) (js_atan2 rt (js_sqrt rt a) (js_sqrt rt (js_sub rt (Fin 1) a)))
      in js_mul rt R c)"

definition point :: "waypoint \<Rightarrow> jsvalue" where
  "point p = JArr [JNum (lng p), JNum (lat p)]"

text \<open>
  The fallback, lines 268 to 281 (the \<^verbatim>\<open>else\<close> branch) and lines 286 to 299 (the
  \<^verbatim>\<open>catch\<close> block): the same statements in both places.
\<close>

definition fallback :: "runtime \<Rightarrow> waypoint \<Rightarrow> waypoint \<Rightarrow> totals \<Rightarrow> totals" where
  "fallback rt origin dest t =
     (let d = haversine rt origin dest
      in t\<lparr>allPolylinePoints := allPolylinePoints t @ [point origin, point dest],
           totalDistance := js_add rt (totalDistance t) d,
           totalDuration := js_add rt (totalDuration t) (js_div_by rt d 40)\<rparr>)"

text \<open>The condition of line 250, for a \<open>data\<close> whose \<^verbatim>\<open>code\<close> can be read.\<close>

definition response_ok :: "jsvalue \<Rightarrow> bool" where
  "response_ok data =
     (js_get data ''code'' = JStr ''Ok'' \<and> truthy (js_get data ''routes'')
        \<and> truthy (index0 (js_get data ''routes'')))"

text \<open>The condition of line 254, on \<^verbatim>\<open>route.geometry\<close>.\<close>

definition geometry_ok :: "jsvalue \<Rightarrow> bool" where
  "geometry_ok geometry =
     (truthy geometry \<and> js_get geometry ''type'' = JStr ''LineString''
        \<and> truthy (js_get geometry ''coordinates''))"

text \<open>
  The \<^verbatim>\<open>try\<close> block, lines 241 to 282. \<open>Inr t'\<close>: the block ends with the totals
  \<open>t'\<close>. \<open>Inl t'\<close>: it throws, the totals being \<open>t'\<close> at that moment. The
  places where it can throw: the two \<^verbatim>\<open>await\<close> of lines 244 and 245; line 248, which
  reads \<^verbatim>\<open>data.code\<close>; the divisions of lines 258 and 259; and the template of line
  263, which prints \<^verbatim>\<open>geometry.coordinates.length\<close>. (The template of line 266 prints
  \<^verbatim>\<open>data.code\<close>; when it throws, the \<^verbatim>\<open>catch\<close> block does what the rest of the
  \<^verbatim>\<open>else\<close> branch would have done.)
\<close>

definition try_block :: "runtime \<Rightarrow> (jsvalue \<Rightarrow> number) \<Rightarrow> fetched \<Rightarrow> waypoint \<Rightarrow> waypoint \<Rightarrow> totals \<Rightarrow> totals + totals" where
  "try_block rt conv r origin dest t =
     (case r of
        Rejected \<Rightarrow> Inl t
      | Body data \<Rightarrow>
          if nullish data then Inl t
          else if response_ok data then
            (let route = index0 (js_get data ''routes'');
                 geometry = js_get route ''geometry''
             in if geometry_ok geometry then
                  (let t1 = t\<lparr>allPolylinePoints :=
                               concat_value (allPolylinePoints t) (js_get geometry ''coordinates'')\<rparr>
                   in case ToNumber conv (or_zero (js_get route ''distance'')) of
                        Inl e \<Rightarrow> Inl t1
                      | Inr meters \<Rightarrow>
                          (case ToNumber conv (or_zero (js_get route ''duration'')) of
                             Inl e \<Rightarrow> Inl t1
                           | Inr seconds \<Rightarrow>
                               (let t2 = t1\<lparr>totalDistance :=
                                               js_add rt (totalDistance t1) (js_div_by rt meters 1000),
                                             totalDuration :=
                                               js_add rt (totalDuration t1) (js_div_by rt seconds 60)\<rparr>
                                in if unprintable (js_length (js_get geometry ''coordinates''))
                                   then Inl t2 else Inr t2)))
                else Inr t)
          else Inr (fallback rt origin dest t))"

text \<open>The body of the loop of line 234: the \<^verbatim>\<open>try\<close> block and its \<^verbatim>\<open>catch\<close>.\<close>

definition leg :: "runtime \<Rightarrow> (jsvalue \<Rightarrow> number) \<Rightarrow> fetched \<Rightarrow> waypoint \<Rightarrow> waypoint \<Rightarrow> totals \<Rightarrow> totals" where
  "leg rt conv r origin dest t =
     (case try_block rt conv r origin dest t of
        Inr t' \<Rightarrow> t'
      | Inl t' \<Rightarrow> fallback rt origin dest t')"

section \<open>The route aggregator\<close>

text \<open>
  Lines 230 to 313. \<open>fetch i\<close> is what the provider call of leg \<open>i\<close> yields. The two
  display strings of the result (\<^verbatim>\<open>distance\<close>, \<^verbatim>\<open>duration\<close>) are formatted from
  \<open>finalDistance\<close> and \<open>finalDuration\<close> and are left out; the source returns these
  two under the names \<^verbatim>\<open>totalDistance\<close> and \<^verbatim>\<open>totalDuration\<close>.
\<close>

definition start :: totals where
  "start = \<lparr>allPolylinePoints = [], totalDistance = Fin 0, totalDuration = Fin 0\<rparr>"

definition legs :: "runtime \<Rightarrow> (jsvalue \<Rightarrow> number) \<Rightarrow> (nat \<Rightarrow> fetched) \<Rightarrow> waypoint list \<Rightarrow> totals" where
  "legs rt conv fetch tour =
     fold (\<lambda>i t. leg rt conv (fetch i) (tour ! i) (tour ! (i + 1)) t) [0..<length tour - 1] start"

record route_result =
  polylinePoints :: "jsvalue list"
  finalDistance :: number
  finalDuration :: number

definition finish :: "waypoint list \<Rightarrow> totals \<Rightarrow> route_result" where
  "finish tour t =
     \<lparr>polylinePoints =
        (if length (allPolylinePoints t) > 0 then allPolylinePoints t else map point tour),
      finalDistance = (if js_gt (totalDistance t) (Fin 0) then totalDistance t else Fin 0.1),
      finalDuration = (if js_gt (totalDuration t) (Fin 0) then totalDuration t else Fin 1)\<rparr>"

definition calculateRoute :: "runtime \<Rightarrow> (jsvalue \<Rightarrow> number) \<Rightarrow> (nat \<Rightarrow> fetched) \<Rightarrow> container list \<Rightarrow> (exn + route_result) option" where
  "calculateRoute rt conv fetch containers =
     (case sequence rt containers of
        None \<Rightarrow> None
      | Some (Inl e) \<Rightarrow> Some (Inl e)
      | Some (Inr tour) \<Rightarrow> Some (Inr (finish tour (legs rt conv fetch tour))))"

section \<open>Storage: saveRoute and saveRouteSavings\<close>

text \<open>
  \<^verbatim>\<open>server/db.ts\<close> and \<^verbatim>\<open>drizzle/schema.ts\<close>. The two tables are lists of rows, each
  row its \<^verbatim>\<open>id\<close> and the inserted values; the column \<^verbatim>\<open>id\<close> is AUTO_INCREMENT, so an
  insert takes the table's counter as the id and advances the counter. The texts in
  \<^verbatim>\<open>containerIds\<close> and \<^verbatim>\<open>polylinePoints\<close> (\<^verbatim>\<open>JSON.stringify\<close> of the input arrays)
  are kept as the arrays they print. What the environment decides is in \<open>env\<close>:
  whether \<^verbatim>\<open>DATABASE_URL\<close> is set, and whether a call of the driver throws.
\<close>

datatype route_status = planned | in_progress | completed | cancelled

record InsertRouteHistory =
  rh_totalDistance :: number
  rh_totalDuration :: number
  rh_containersCount :: number
  rh_containerIds :: "number list"
  rh_polylinePoints :: "number list list"
  rh_status :: route_status

record InsertRouteSavings =
  rs_routeId :: int
  rs_fuelSaved :: number
  rs_co2Saved :: number
  rs_costSaved :: number
  rs_timeSaved :: number
  rs_efficiencyGain :: number

record world =
  db_handle :: bool
  routeHistory :: "(int \<times> InsertRouteHistory) list"
  routeHistory_next :: int
  routeSavings :: "(int \<times> InsertRouteSavings) list"
  routeSavings_next :: int

record env =
  DATABASE_URL :: bool
  drizzle_throws :: bool
  insert_route_throws :: bool
  select_route_throws :: bool
  insert_savings_throws :: bool

text \<open>\<^verbatim>\<open>getDb\<close>: the handle \<^verbatim>\<open>_db\<close> is created once and kept.\<close>

definition getDb :: "env \<Rightarrow> world \<Rightarrow> bool \<times> world" where
  "getDb e w =
     (if \<not> db_handle w \<and> DATABASE_URL e then
        (if drizzle_throws e then (False, w\<lparr>db_handle := False\<rparr>)
         else (True, w\<lparr>db_handle := True\<rparr>))
      else (db_handle w, w))"

text \<open>
  \<^verbatim>\<open>saveRoute\<close> of \<^verbatim>\<open>server/db.ts\<close>. \<open>Inr None\<close> is the \<^verbatim>\<open>null\<close> it returns without
  a database. After the insert it reads the table ordered by \<^verbatim>\<open>id\<close> (ascending, the
  default of \<^verbatim>\<open>orderBy\<close>) with \<^verbatim>\<open>limit(1)\<close>, and returns the id of that row.
\<close>

record insert_result =
  insertId :: "int option"

definition saveRoute :: "env \<Rightarrow> InsertRouteHistory \<Rightarrow> world \<Rightarrow> (exn + insert_result option) \<times> world" where
  "saveRoute e route w0 =
     (let (db, w) = getDb e w0
      in if \<not> db then (Inr None, w)
         else if insert_route_throws e then (Inl DriverError, w)
         else
           (let w1 = w\<lparr>routeHistory := routeHistory w @ [(routeHistory_next w, route)],
                       routeHistory_next := routeHistory_next w + 1\<rparr>
            in if select_route_throws e then (Inl DriverError, w1)
               else
                 (let lastRoute = take 1 (sort_key fst (routeHistory w1));
                      routeId = (case lastRoute of [] \<Rightarrow> None | row # _ \<Rightarrow> Some (fst row))
                  in (Inr (Some \<lparr>insertId = routeId\<rparr>), w1))))"

definition saveRouteSavings :: "env \<Rightarrow> InsertRouteSavings \<Rightarrow> world \<Rightarrow> (exn + unit option) \<times> world" where
  "saveRouteSavings e savings w0 =
     (let (db, w) = getDb e w0
      in if \<not> db then (Inr None, w)
         else if insert_savings_throws e then (Inl DriverError, w)
         else (Inr (Some ()),
               w\<lparr>routeSavings := routeSavings w @ [(routeSavings_next w, savings)],
                 routeSavings_next := routeSavings_next w + 1\<rparr>))"

section \<open>The saveRoute mutation\<close>

text \<open>
  \<^verbatim>\<open>server/routers.ts\<close>, lines 320 to 376. The \<^verbatim>\<open>catch\<close> of line 372 logs and throws
  the error again, so an error of the block is the error of the mutation.
  \<^verbatim>\<open>Math.round\<close> rounds a half up.
\<close>

fun js_round :: "number \<Rightarrow> number" where
  "js_round (Fin a) = Fin (of_int \<lfloor>a + 1 / 2\<rfloor>)"
| "js_round x = x"

record saveRoute_input =
  in_totalDistance :: number
  in_totalDuration :: number
  in_containersCount :: number
  in_containerIds :: "number list"
  in_polylinePoints :: "number list list"
  in_fuelSaved :: number
  in_co2Saved :: number
  in_costSaved :: number
  in_timeSaved :: number
  in_efficiencyGain :: number

record saveRoute_output =
  success :: bool
  routeId :: int

definition route_values :: "saveRoute_input \<Rightarrow> InsertRouteHistory" where
  "route_values inp =
     \<lparr>rh_totalDistance = in_totalDistance inp,
      rh_totalDuration = js_round (in_totalDuration inp),
      rh_containersCount = in_containersCount inp,
      rh_containerIds = in_containerIds inp,
      rh_polylinePoints = in_polylinePoints inp,
      rh_status = completed\<rparr>"

definition savings_values :: "int \<Rightarrow> saveRoute_input \<Rightarrow> InsertRouteSavings" where
  "savings_values rid inp =
     \<lparr>rs_routeId = rid,
      rs_fuelSaved = in_fuelSaved inp,
      rs_co2Saved = in_co2Saved inp,
      rs_costSaved = in_costSaved inp,
      rs_timeSaved = in_timeSaved inp,
      rs_efficiencyGain = in_efficiencyGain inp\<rparr>"

definition saveRoute_mutation :: "env \<Rightarrow> saveRoute_input \<Rightarrow> world \<Rightarrow> (exn + saveRoute_output) \<times> world" where
  "saveRoute_mutation e inp w0 =
     (case saveRoute e (route_values inp) w0 of
        (Inl err, w) \<Rightarrow> (Inl err, w)
      | (Inr None, w) \<Rightarrow> (Inl (Error ''Failed to save route''), w)
      | (Inr (Some routeResult), w) \<Rightarrow>
          (case insertId routeResult of
             None \<Rightarrow> (Inl (Error ''Failed to get route ID from insert result''), w)
           | Some rid \<Rightarrow>
               if rid = 0 then (Inl (Error ''Failed to get route ID from insert result''), w)
               else
                 (case saveRouteSavings e (savings_values rid inp) w of
                    (Inl err, w') \<Rightarrow> (Inl err, w')
                  | (Inr r, w') \<Rightarrow> (Inr \<lparr>success = True, routeId = rid\<rparr>, w'))))"

section \<open>Predicates of the statements\<close>

text \<open>
  \<open>finite_distances rt ws\<close>: every planar distance the loop can compute, from the depot
  or a waypoint to a waypoint, is a finite double. It fails when a coordinate is NaN or
  infinite, and when the squares overflow.
\<close>

definition finite_distances :: "runtime \<Rightarrow> waypoint list \<Rightarrow> bool" where
  "finite_distances rt ws = (\<forall>p \<in> set (CODECA # ws). \<forall>w \<in> set ws. js_lt (distance rt p w) PInf)"

text \<open>
  The state of the \<^verbatim>\<open>for\<close> loop after the indices below \<open>k\<close>: nothing chosen yet
  and no unvisited waypoint at a distance below \<^verbatim>\<open>Infinity\<close>, or the first of the
  unvisited waypoints at the least distance.
\<close>

definition scan_inv :: "runtime \<Rightarrow> waypoint \<Rightarrow> waypoint list \<Rightarrow> nat set \<Rightarrow> nat \<Rightarrow> nat option \<times> number \<Rightarrow> bool" where
  "scan_inv rt c ws V k s =
     (case fst s of
        None \<Rightarrow> snd s = PInf \<and> (\<forall>j<k. j \<notin> V \<longrightarrow> \<not> js_lt (distance rt c (ws ! j)) PInf)
      | Some i \<Rightarrow> i < k \<and> i \<notin> V \<and> snd s = distance rt c (ws ! i) \<and> js_lt (distance rt c (ws ! i)) PInf
          \<and> (\<forall>j<k. j \<notin> V \<longrightarrow> \<not> js_lt (distance rt c (ws ! j)) (distance rt c (ws ! i)))
          \<and> (\<forall>j<i. j \<notin> V \<longrightarrow> distance rt c (ws ! j) \<noteq> distance rt c (ws ! i)))"

text \<open>
  The state of the \<^verbatim>\<open>while\<close> loop: the route is the depot followed by the waypoints
  of the visited indices, each once, in the order of their visits.
\<close>

definition seq_inv :: "waypoint list \<Rightarrow> seq_state \<Rightarrow> bool" where
  "seq_inv ws st = (\<exists>order. optimizedRoute st = CODECA # map ((!) ws) order \<and> distinct order
      \<and> set order = visited st \<and> visited st \<subseteq> {..<length ws})"

text \<open>Inputs of the examples.\<close>

definition container1 :: container where
  "container1 = Container (Fin (- 29.18)) (Fin (- 51.19)) ''Container 1''"

definition container2 :: container where
  "container2 = Container (Fin (- 29.16)) (Fin (- 51.17)) ''Container 2''"

definition waypoint1 :: waypoint where
  "waypoint1 = \<lparr>lat = Fin (- 29.18), lng = Fin (- 51.19), name = ''Container 1''\<rparr>"

definition waypoint2 :: waypoint where
  "waypoint2 = \<lparr>lat = Fin (- 29.16), lng = Fin (- 51.17), name = ''Container 2''\<rparr>"

text \<open>
  How the source sorts the outcome of a provider call. \<open>provider_failed\<close>: the call
  throws, \<^verbatim>\<open>data.code\<close> cannot be read, or the condition of line 250 is false; these
  are the ways into the two fallback blocks before anything else is done.
  \<open>provider_succeeded\<close>: both conditions hold, the two fields convert to the numbers
  \<open>meters\<close> and \<open>seconds\<close>, and the length of the coordinates can be printed, so lines
  255 to 263 run to their end.
\<close>

definition provider_failed :: "fetched \<Rightarrow> bool" where
  "provider_failed r = (case r of Rejected \<Rightarrow> True | Body data \<Rightarrow> nullish data \<or> \<not> response_ok data)"

definition route_of :: "jsvalue \<Rightarrow> jsvalue" where
  "route_of data = index0 (js_get data ''routes'')"

definition coordinates_of :: "jsvalue \<Rightarrow> jsvalue" where
  "coordinates_of data = js_get (js_get (route_of data) ''geometry'') ''coordinates''"

definition provider_succeeded :: "(jsvalue \<Rightarrow> number) \<Rightarrow> jsvalue \<Rightarrow> number \<Rightarrow> number \<Rightarrow> bool" where
  "provider_succeeded conv data meters seconds =
     (\<not> nullish data \<and> response_ok data \<and> geometry_ok (js_get (route_of data) ''geometry'')
        \<and> ToNumber conv (or_zero (js_get (route_of data) ''distance'')) = Inr meters
        \<and> ToNumber conv (or_zero (js_get (route_of data) ''duration'')) = Inr seconds
        \<and> \<not> unprintable (js_length (coordinates_of data)))"

text \<open>
  \<open>with_geometry\<close>: the conditions of lines 250 and 254 both hold, so line 255 appends
  the coordinates. \<open>throws_late\<close>: one of the lines 258, 259 and 263 then throws, and
  the \<^verbatim>\<open>catch\<close> block runs after the coordinates have been appended.
\<close>

definition with_geometry :: "jsvalue \<Rightarrow> bool" where
  "with_geometry data =
     (\<not> nullish data \<and> response_ok data \<and> geometry_ok (js_get (route_of data) ''geometry''))"



text \<open>Whether the result of \<^verbatim>\<open>saveRoute\<close> gives the mutation an identifier.\<close>

definition yields_id :: "exn + insert_result option \<Rightarrow> bool" where
  "yields_id res =
     (case res of
        Inr (Some r) \<Rightarrow> (case insertId r of Some i \<Rightarrow> i \<noteq> 0 | None \<Rightarrow> False)
      | _ \<Rightarrow> False)"

text \<open>
  More inputs of the examples. \<open>plain_conv\<close> stands for the conversion of the
  language where an example needs one. \<open>unconvertible\<close> is a body whose \<^verbatim>\<open>duration\<close>
  is the object \<^verbatim>\<open>{"toString": 1}\<close>, which cannot be converted to a number.
\<close>

definition plain_conv :: "jsvalue \<Rightarrow> number" where
  "plain_conv v = NaN"

definition no_geometry :: jsvalue where
  "no_geometry =
     JObj [(''code'', JStr ''Ok''),
           (''routes'', JArr [JObj [(''distance'', JNum (Fin 1000)), (''duration'', JNum (Fin 60))]])]"

definition short_leg :: jsvalue where
  "short_leg =
     JObj [(''code'', JStr ''Ok''),
           (''routes'',
              JArr [JObj [(''geometry'',
                             JObj [(''type'', JStr ''LineString''),
                                   (''coordinates'',
                                      JArr [JArr [JNum (Fin (- 51.185)), JNum (Fin (- 29.175))],
                                            JArr [JNum (Fin (- 51.1851)), JNum (Fin (- 29.1751))]])]),
                          (''distance'', JNum (Fin 31.25)),
                          (''duration'', JNum (Fin 7.5))]])]"

definition zero_leg :: jsvalue where
  "zero_leg =
     JObj [(''code'', JStr ''Ok''),
           (''routes'',
              JArr [JObj [(''geometry'',
                             JObj [(''type'', JStr ''LineString''),
                                   (''coordinates'',
                                      JArr [JArr [JNum (Fin (- 51.185)), JNum (Fin (- 29.175))]])]),
                          (''distance'', JNum (Fin 0)),
                          (''duration'', JNum (Fin 0))]])]"

definition error_body :: jsvalue where
  "error_body = JObj [(''code'', JStr ''InvalidQuery''), (''message'', JStr ''Query string malformed'')]"

definition no_distance :: jsvalue where
  "no_distance =
     JObj [(''code'', JStr ''Ok''),
           (''routes'',
              JArr [JObj [(''geometry'',
                             JObj [(''type'', JStr ''LineString''),
                                   (''coordinates'',
                                      JArr [JArr [JNum (Fin 0), JNum (Fin 0)],
                                            JArr [JNum (Fin 0), JNum (Fin 90)]])]),
                          (''duration'', JNum (Fin 3))]])]"

definition unconvertible :: jsvalue where
  "unconvertible =
     JObj [(''code'', JStr ''Ok''),
           (''routes'',
              JArr [JObj [(''geometry'',
                             JObj [(''type'', JStr ''LineString''),
                                   (''coordinates'',
                                      JArr [JArr [JNum (Fin 0), JNum (Fin 0)],
                                            JArr [JNum (Fin 0), JNum (Fin 90)]])]),
                          (''duration'', JObj [(''toString'', JNum (Fin 1))])]])]"

definition near_container :: container where
  "near_container = Container (Fin (- 29.1751)) (Fin (- 51.1851)) ''near''"

definition near_waypoint :: waypoint where
  "near_waypoint = \<lparr>lat = Fin (- 29.1751), lng = Fin (- 51.1851), name = ''near''\<rparr>"

definition depot_container :: container where
  "depot_container = Container (Fin (- 29.1750)) (Fin (- 51.1850)) ''at the depot''"

definition depot_waypoint :: waypoint where
  "depot_waypoint = \<lparr>lat = Fin (- 29.1750), lng = Fin (- 51.1850), name = ''at the depot''\<rparr>"

definition equator :: waypoint where
  "equator = \<lparr>lat = Fin 0, lng = Fin 0, name = ''equator''\<rparr>"

definition pole :: waypoint where
  "pole = \<lparr>lat = Fin 90, lng = Fin 0, name = ''pole''\<rparr>"

definition short_fetch :: "nat \<Rightarrow> fetched" where
  "short_fetch i = Body short_leg"

definition zero_fetch :: "nat \<Rightarrow> fetched" where
  "zero_fetch i = Body zero_leg"

definition short_then_down :: "nat \<Rightarrow> fetched" where
  "short_then_down i = (if i \<le> 1 then Body short_leg else Rejected)"



definition far_container :: container where
  "far_container = Container (Fin (10 ^ 200)) (Fin 0) ''far''"

definition far_waypoint :: waypoint where
  "far_waypoint = \<lparr>lat = Fin (10 ^ 200), lng = Fin 0, name = ''far''\<rparr>"


definition short_result :: route_result where
  "short_result =
     \<lparr>polylinePoints = [JArr [JNum (Fin (- 51.185)), JNum (Fin (- 29.175))],
                         JArr [JNum (Fin (- 51.1851)), JNum (Fin (- 29.1751))],
                         JArr [JNum (Fin (- 51.185)), JNum (Fin (- 29.175))],
                         JArr [JNum (Fin (- 51.1851)), JNum (Fin (- 29.1751))]],
      finalDistance = Fin (1 / 16), finalDuration = Fin (1 / 4)\<rparr>"

definition zero_result :: route_result where
  "zero_result =
     \<lparr>polylinePoints = [JArr [JNum (Fin (- 51.185)), JNum (Fin (- 29.175))],
                         JArr [JNum (Fin (- 51.185)), JNum (Fin (- 29.175))]],
      finalDistance = Fin 0.1, finalDuration = Fin 1\<rparr>"

definition good_env :: env where
  "good_env = \<lparr>DATABASE_URL = True, drizzle_throws = False, insert_route_throws = False,
               select_route_throws = False, insert_savings_throws = False\<rparr>"

definition no_database :: env where
  "no_database = \<lparr>DATABASE_URL = False, drizzle_throws = False, insert_route_throws = False,
               select_route_throws = False, insert_savings_throws = False\<rparr>"

definition some_input :: saveRoute_input where
  "some_input =
     \<lparr>in_totalDistance = Fin 12.5, in_totalDuration = Fin 30.4, in_containersCount = Fin 2,
      in_containerIds = [Fin 7, Fin 9], in_polylinePoints = [[Fin (- 51.185), Fin (- 29.175)]],
      in_fuelSaved = Fin 1.5, in_co2Saved = Fin 3.9, in_costSaved = Fin 8, in_timeSaved = Fin 10,
      in_efficiencyGain = Fin 20\<rparr>"

definition old_route :: InsertRouteHistory where
  "old_route =
     \<lparr>rh_totalDistance = Fin 8, rh_totalDuration = Fin 21, rh_containersCount = Fin 1,
      rh_containerIds = [Fin 3], rh_polylinePoints = [], rh_status = completed\<rparr>"

definition one_route :: world where
  "one_route =
     \<lparr>db_handle = True, routeHistory = [(1, old_route)], routeHistory_next = 2,
      routeSavings = [], routeSavings_next = 1\<rparr>"

definition empty_world :: world where
  "empty_world =
     \<lparr>db_handle = False, routeHistory = [], routeHistory_next = 1,
      routeSavings = [], routeSavings_next = 1\<rparr>"

section \<open>The comparison and the scan\<close>

lemma js_lt_irrefl: "\<not> js_lt x x"
  by (cases x) auto

lemma js_lt_trans: "js_lt x y \<Longrightarrow> js_lt y z \<Longrightarrow> js_lt x z"
  by (cases x; cases y; cases z) auto

lemma js_lt_PInf: "js_lt x y \<Longrightarrow> js_lt x PInf"
  by (cases x; cases y) auto

lemma scan_inv_step:
  assumes "scan_inv rt c ws V k s"
  shows "scan_inv rt c ws V (Suc k) (scan_step rt c ws V k s)"
proof (cases "k \<in> V")
  case True
  then have "scan_step rt c ws V k s = s" by (simp add: scan_step_def)
  with assms True show ?thesis
    by (auto simp: scan_inv_def less_Suc_eq split: option.splits)
next
  case False
  let ?d = "distance rt c (ws ! k)"
  show ?thesis
  proof (cases "js_lt ?d (snd s)")
    case lt: True
    with False have eq: "scan_step rt c ws V k s = (Some k, ?d)"
      by (simp add: scan_step_def)
    have fin: "js_lt ?d PInf" using lt by (rule js_lt_PInf)
    have below: "\<not> js_lt (distance rt c (ws ! j)) ?d \<and> distance rt c (ws ! j) \<noteq> ?d"
      if "j < k" "j \<notin> V" for j
    proof (cases "fst s")
      case None
      with assms that have "snd s = PInf" "\<not> js_lt (distance rt c (ws ! j)) PInf"
        by (auto simp: scan_inv_def)
      with fin show ?thesis by (auto dest: js_lt_PInf)
    next
      case (Some i)
      with assms that have s: "snd s = distance rt c (ws ! i)"
        and nlt: "\<not> js_lt (distance rt c (ws ! j)) (distance rt c (ws ! i))"
        by (auto simp: scan_inv_def)
      from lt s have "js_lt ?d (distance rt c (ws ! i))" by simp
      with nlt show ?thesis by (auto dest: js_lt_trans)
    qed
    show ?thesis
      unfolding eq scan_inv_def using False fin below
      by (auto simp: less_Suc_eq js_lt_irrefl)
  next
    case nlt: False
    with False have eq: "scan_step rt c ws V k s = s"
      by (simp add: scan_step_def)
    show ?thesis
      unfolding eq using assms nlt
      by (auto simp: scan_inv_def less_Suc_eq split: option.splits)
  qed
qed

lemma scan_inv_fold:
  "scan_inv rt c ws V k (fold (scan_step rt c ws V) [0..<k] (None, PInf))"
proof (induction k)
  case 0
  show ?case by (simp add: scan_inv_def)
next
  case (Suc k)
  then show ?case by (simp add: scan_inv_step)
qed

lemma scan_inv_scan: "scan_inv rt c ws V (length ws) (scan rt c ws V)"
  unfolding scan_def by (rule scan_inv_fold)

lemma scan_None:
  "fst (scan rt c ws V) = None \<Longrightarrow> j < length ws \<Longrightarrow> j \<notin> V \<Longrightarrow> \<not> js_lt (distance rt c (ws ! j)) PInf"
  using scan_inv_scan [of rt c ws V] by (auto simp: scan_inv_def)

lemma scan_Some:
  assumes "fst (scan rt c ws V) = Some i"
  shows "i < length ws" "i \<notin> V" "js_lt (distance rt c (ws ! i)) PInf"
    "\<And>j. j < length ws \<Longrightarrow> j \<notin> V \<Longrightarrow> \<not> js_lt (distance rt c (ws ! j)) (distance rt c (ws ! i))"
    "\<And>j. j < i \<Longrightarrow> j \<notin> V \<Longrightarrow> distance rt c (ws ! j) \<noteq> distance rt c (ws ! i)"
  using scan_inv_scan [of rt c ws V] assms by (auto simp: scan_inv_def)


lemma sequence_loop_diverges:
  assumes step: "\<And>st. I st \<Longrightarrow> card (visited st) < length ws \<and> I (loop_body rt ws st)"
    and init: "I st"
  shows "sequence_loop rt ws st = None"
proof (rule ccontr)
  assume "sequence_loop rt ws st \<noteq> None"
  then obtain y where y: "sequence_loop rt ws st = Some y" by auto
  have "\<not> (rt = rt \<and> ws = ws \<and> I st)"
  proof (rule sequence_loop.raw_induct [where P = "\<lambda>rt' ws' st y. \<not> (rt' = rt \<and> ws' = ws \<and> I st)", OF _ y])
    fix f rt' ws' st' y'
    assume IH: "\<And>rt' ws' st y. f rt' ws' st = Some y \<Longrightarrow> \<not> (rt' = rt \<and> ws' = ws \<and> I st)"
      and unfold: "(if card (visited st') < length ws' then f rt' ws' (loop_body rt' ws' st') else Some st') = Some y'"
    show "\<not> (rt' = rt \<and> ws' = ws \<and> I st')"
    proof
      assume a: "rt' = rt \<and> ws' = ws \<and> I st'"
      with step [of st'] have "card (visited st') < length ws'" "I (loop_body rt' ws' st')" by simp_all
      with unfold have "f rt' ws' (loop_body rt' ws' st') = Some y'" by simp
      from IH [OF this] a \<open>I (loop_body rt' ws' st')\<close> show False by simp
    qed
  qed
  with init show False by simp
qed

section \<open>The sequencing loop ends on finite distances\<close>

lemma seq_inv_init: "seq_inv ws \<lparr>optimizedRoute = [CODECA], visited = {}\<rparr>"
  by (simp add: seq_inv_def)

lemma seq_inv_step:
  assumes fd: "finite_distances rt ws" and inv: "seq_inv ws st"
    and lt: "card (visited st) < length ws"
  shows "seq_inv ws (loop_body rt ws st) \<and> card (visited (loop_body rt ws st)) = Suc (card (visited st))"
proof -
  from inv obtain order where route: "optimizedRoute st = CODECA # map ((!) ws) order"
    and dist: "distinct order" and vis: "set order = visited st"
    and sub: "visited st \<subseteq> {..<length ws}"
    by (auto simp: seq_inv_def)
  let ?cur = "last (optimizedRoute st)"
  have cur: "?cur \<in> set (CODECA # ws)"
  proof (cases order rule: rev_cases)
    case Nil
    with route show ?thesis by simp
  next
    case (snoc ys y)
    with vis sub have "y < length ws" by auto
    with route snoc show ?thesis by simp
  qed
  have fin: "finite (visited st)" using vis by (metis List.finite_set)
  from lt sub have "visited st \<noteq> {..<length ws}" by auto
  with sub obtain j where j: "j < length ws" "j \<notin> visited st" by auto
  with fd cur have "js_lt (distance rt ?cur (ws ! j)) PInf"
    unfolding finite_distances_def by (meson nth_mem)
  with j have "fst (scan rt ?cur ws (visited st)) \<noteq> None"
    using scan_None by blast
  then obtain i where i: "fst (scan rt ?cur ws (visited st)) = Some i" by auto
  then have i_lt: "i < length ws" and i_new: "i \<notin> visited st"
    using scan_Some(1,2) by blast+
  from i have body: "loop_body rt ws st = st\<lparr>optimizedRoute := optimizedRoute st @ [ws ! i],
      visited := insert i (visited st)\<rparr>"
    by (simp add: loop_body_def)
  have "seq_inv ws (loop_body rt ws st)"
    unfolding seq_inv_def body
    using route dist vis sub i_lt i_new
    by (intro exI [of _ "order @ [i]"]) auto
  moreover have "card (visited (loop_body rt ws st)) = Suc (card (visited st))"
    unfolding body using fin i_new by simp
  ultimately show ?thesis by simp
qed

lemma sequence_loop_terminates:
  assumes fd: "finite_distances rt ws"
  shows "seq_inv ws st \<Longrightarrow> \<exists>st'. sequence_loop rt ws st = Some st' \<and> seq_inv ws st' \<and> visited st' = {..<length ws}"
proof (induction "length ws - card (visited st)" arbitrary: st)
  case 0
  from "0.prems" obtain order where vis: "set order = visited st"
    and sub: "visited st \<subseteq> {..<length ws}"
    by (auto simp: seq_inv_def)
  from "0.hyps" have ge: "length ws \<le> card (visited st)" by simp
  have "card (visited st) \<le> card {..<length ws}"
    using sub by (intro card_mono) auto
  with ge have "card (visited st) = card {..<length ws}" by simp
  with sub have full: "visited st = {..<length ws}"
    by (intro card_subset_eq) auto
  from ge have "sequence_loop rt ws st = Some st"
    by (subst sequence_loop.simps) simp
  with "0.prems" full show ?case by simp
next
  case (Suc k)
  then have lt: "card (visited st) < length ws" by simp
  from seq_inv_step [OF fd Suc.prems lt]
  have inv': "seq_inv ws (loop_body rt ws st)"
    and c: "card (visited (loop_body rt ws st)) = Suc (card (visited st))" by simp_all
  from Suc.hyps(2) c have "k = length ws - card (visited (loop_body rt ws st))" by simp
  from Suc.hyps(1) [OF this inv'] obtain st' where
    "sequence_loop rt ws (loop_body rt ws st) = Some st'" "seq_inv ws st'" "visited st' = {..<length ws}"
    by auto
  moreover from lt have "sequence_loop rt ws st = sequence_loop rt ws (loop_body rt ws st)"
    by (subst sequence_loop.simps) simp
  ultimately show ?case by simp
qed

lemma perm_tour:
  assumes "distinct order" "set order = {..<length ws}"
  shows "mset (map ((!) ws) order) = mset ws"
proof -
  have "mset order = mset [0..<length ws]"
    using assms by (intro set_eq_iff_mset_eq_distinct [THEN iffD1]) (auto simp: atLeast0LessThan)
  then have "mset (map ((!) ws) order) = mset (map ((!) ws) [0..<length ws])"
    by (metis mset_map)
  then show ?thesis by (simp add: map_nth)
qed

lemma length_to_waypoints: "to_waypoints cs = Inr ws \<Longrightarrow> length ws = length cs"
  by (induction cs arbitrary: ws rule: to_waypoints.induct) (auto split: sum.splits)

lemma js_sub_not_finite: "\<not> is_finite x \<Longrightarrow> js_sub rt x y \<in> {PInf, NInf, NaN}"
  by (cases x; cases y) (auto simp: js_sub_def)

lemma js_mul_self_not_finite: "d \<in> {PInf, NInf, NaN} \<Longrightarrow> js_mul rt d d \<in> {PInf, NaN}"
  by auto

lemma MAX_OVERFLOW_pos: "0 < MAX_OVERFLOW"
  by (simp add: MAX_OVERFLOW_def)

lemma js_mul_self_not_NInf: "js_mul rt d d \<noteq> NInf"
proof (cases d)
  case (Fin a)
  have "0 \<le> a * a" by simp
  with MAX_OVERFLOW_pos have "\<not> a * a \<le> - MAX_OVERFLOW" by linarith
  with Fin show ?thesis by (simp add: fin_def)
qed auto

lemma js_add_not_finite_left: "p \<in> {PInf, NaN} \<Longrightarrow> q \<noteq> NInf \<Longrightarrow> js_add rt p q \<in> {PInf, NaN}"
  by (cases q) auto

lemma js_add_not_finite_right: "q \<in> {PInf, NaN} \<Longrightarrow> p \<noteq> NInf \<Longrightarrow> js_add rt p q \<in> {PInf, NaN}"
  by (cases p) auto

lemma distance_not_finite:
  assumes "\<not> is_finite (lat w) \<or> \<not> is_finite (lng w)"
  shows "\<not> js_lt (distance rt current w) PInf"
proof -
  let ?dx = "js_sub rt (lat w) (lat current)" and ?dy = "js_sub rt (lng w) (lng current)"
  have "js_add rt (js_mul rt ?dx ?dx) (js_mul rt ?dy ?dy) \<in> {PInf, NaN}"
    using assms
  proof
    assume "\<not> is_finite (lat w)"
    then have "js_mul rt ?dx ?dx \<in> {PInf, NaN}"
      by (intro js_mul_self_not_finite js_sub_not_finite)
    then show ?thesis
      by (rule js_add_not_finite_left) (rule js_mul_self_not_NInf)
  next
    assume "\<not> is_finite (lng w)"
    then have "js_mul rt ?dy ?dy \<in> {PInf, NaN}"
      by (intro js_mul_self_not_finite js_sub_not_finite)
    then show ?thesis
      by (rule js_add_not_finite_right) (rule js_mul_self_not_NInf)
  qed
  then show ?thesis by (auto simp: distance_def Let_def)
qed

lemma seq_inv_loop_body: "seq_inv ws st \<Longrightarrow> seq_inv ws (loop_body rt ws st)"
proof (cases "fst (scan rt (last (optimizedRoute st)) ws (visited st))")
  case None
  assume "seq_inv ws st"
  with None show ?thesis by (simp add: loop_body_def)
next
  case (Some i)
  assume "seq_inv ws st"
  then obtain order where route: "optimizedRoute st = CODECA # map ((!) ws) order"
    and dist: "distinct order" and vis: "set order = visited st"
    and sub: "visited st \<subseteq> {..<length ws}"
    by (auto simp: seq_inv_def)
  from scan_Some(1,2) [OF Some] have "i < length ws" "i \<notin> visited st" by simp_all
  with route dist vis sub show ?thesis
    unfolding seq_inv_def loop_body_def using Some
    by (intro exI [of _ "order @ [i]"]) auto
qed

text \<open>
  The last point of the route is the depot or the waypoint of a visited index.
\<close>

lemma seq_inv_last:
  assumes "seq_inv ws st"
  shows "last (optimizedRoute st) = CODECA
     \<or> (\<exists>j \<in> visited st. j < length ws \<and> last (optimizedRoute st) = ws ! j)"
proof -
  from assms obtain order where route: "optimizedRoute st = CODECA # map ((!) ws) order"
    and vis: "set order = visited st" and sub: "visited st \<subseteq> {..<length ws}"
    by (auto simp: seq_inv_def)
  show ?thesis
  proof (cases order rule: rev_cases)
    case Nil
    with route show ?thesis by simp
  next
    case (snoc ys y)
    with vis sub have "y \<in> visited st" "y < length ws" by auto
    with route snoc show ?thesis by auto
  qed
qed

text \<open>
  The tour on finite distances. For every non-empty list of containers whose
  coordinates are read and whose planar distances, from the depot and from one another,
  are finite doubles, the sequencing step returns a tour of as many elements as there
  are containers plus two; its first and its last element are the depot \<open>CODECA\<close>, and
  between them stand the waypoints of the containers, each index exactly once.
\<close>

lemma sequence_tour:
  assumes "containers \<noteq> []" and "to_waypoints containers = Inr ws" and "finite_distances rt ws"
  shows "\<exists>tour order. sequence rt containers = Some (Inr tour)
            \<and> length tour = length containers + 2 \<and> hd tour = CODECA \<and> last tour = CODECA
            \<and> tour = CODECA # map ((!) ws) order @ [CODECA]
            \<and> distinct order \<and> set order = {..<length ws}
            \<and> mset (map ((!) ws) order) = mset ws"
proof -
  from sequence_loop_terminates [OF assms(3) seq_inv_init]
  obtain st' where run: "sequence_loop rt ws \<lparr>optimizedRoute = [CODECA], visited = {}\<rparr> = Some st'"
    and inv: "seq_inv ws st'" and full: "visited st' = {..<length ws}" by auto
  from inv full obtain order where route: "optimizedRoute st' = CODECA # map ((!) ws) order"
    and order: "distinct order" "set order = {..<length ws}"
    by (auto simp: seq_inv_def)
  have len: "length order = length ws"
    using order by (metis card_lessThan distinct_card)
  have seq: "sequence rt containers = Some (Inr (CODECA # map ((!) ws) order @ [CODECA]))"
    using run route assms(1,2) by (simp add: sequence_def)
  show ?thesis
    using seq order len perm_tour [OF order] length_to_waypoints [OF assms(2)]
    by (intro exI [of _ "CODECA # map ((!) ws) order @ [CODECA]"] exI [of _ order]) simp
qed

text \<open>
  Coordinates of a magnitude up to \<open>10 ^ 150\<close>, which covers every latitude and
  longitude of the globe, have finite distances on every runtime whose rounding at most
  doubles a magnitude and keeps the sign of what is not negative, as every rounding to
  doubles does.
\<close>

lemma finite_distances_bounded:
  assumes near: "\<forall>x. \<bar>rnd rt x\<bar> \<le> 2 * \<bar>x\<bar>" and sign: "\<forall>x. 0 \<le> x \<longrightarrow> 0 \<le> rnd rt x"
    and ws: "\<forall>w \<in> set ws. \<exists>a b. lat w = Fin a \<and> lng w = Fin b \<and> \<bar>a\<bar> \<le> 10 ^ 150 \<and> \<bar>b\<bar> \<le> 10 ^ 150"
  shows "finite_distances rt ws"
  unfolding finite_distances_def
proof (intro ballI)
  fix p w
  assume p: "p \<in> set (CODECA # ws)" and w: "w \<in> set ws"
  have "\<exists>a b. lat p = Fin a \<and> lng p = Fin b \<and> \<bar>a\<bar> \<le> 10 ^ 150 \<and> \<bar>b\<bar> \<le> 10 ^ 150"
  proof (cases "p = CODECA")
    case True
    then show ?thesis by (simp add: CODECA_def)
  next
    case False
    with p ws show ?thesis by simp
  qed
  then obtain a b where pa: "lat p = Fin a" "lng p = Fin b" "\<bar>a\<bar> \<le> 10 ^ 150" "\<bar>b\<bar> \<le> 10 ^ 150"
    by blast
  from w ws obtain c d where wc: "lat w = Fin c" "lng w = Fin d" "\<bar>c\<bar> \<le> 10 ^ 150" "\<bar>d\<bar> \<le> 10 ^ 150"
    by blast
  have max: "(10::real) ^ 303 < MAX_OVERFLOW" by (simp add: MAX_OVERFLOW_def)
  have fin_bound: "\<exists>y. fin rt x = Fin y \<and> \<bar>y\<bar> \<le> 2 * B \<and> (0 \<le> x \<longrightarrow> 0 \<le> y)"
    if "\<bar>x\<bar> \<le> B" "B \<le> 10 ^ 303" for x B :: real
  proof -
    from that max have "\<not> MAX_OVERFLOW \<le> x" "\<not> x \<le> - MAX_OVERFLOW" by linarith+
    moreover have "\<bar>rnd rt x\<bar> \<le> 2 * B" using near [rule_format, of x] that(1) by linarith
    moreover have "0 \<le> B" using that(1) by linarith
    ultimately show ?thesis using sign by (auto simp: fin_def)
  qed
  have diff: "\<bar>c - a\<bar> \<le> 2 * 10 ^ 150" "\<bar>d - b\<bar> \<le> 2 * 10 ^ 150"
    using pa(3,4) wc(3,4) by linarith+
  have small: "(2::real) * 10 ^ 150 \<le> 10 ^ 303" by simp
  from fin_bound [OF diff(1) small] obtain dx where dx: "fin rt (c - a) = Fin dx" "\<bar>dx\<bar> \<le> 4 * 10 ^ 150"
    by auto
  from fin_bound [OF diff(2) small] obtain dy where dy: "fin rt (d - b) = Fin dy" "\<bar>dy\<bar> \<le> 4 * 10 ^ 150"
    by auto
  have sq: "\<bar>x * x\<bar> \<le> 16 * 10 ^ 300" if "\<bar>x\<bar> \<le> 4 * 10 ^ 150" for x :: real
  proof -
    have "\<bar>x * x\<bar> = \<bar>x\<bar> * \<bar>x\<bar>" by (simp add: abs_mult)
    also have "\<dots> \<le> (4 * 10 ^ 150) * (4 * 10 ^ 150)"
      using that by (intro mult_mono) auto
    also have "\<dots> = 16 * 10 ^ 300" by simp
    finally show ?thesis .
  qed
  have small2: "(16::real) * 10 ^ 300 \<le> 10 ^ 303" by simp
  from fin_bound [OF sq [OF dx(2)] small2] obtain x2 where
    x2: "fin rt (dx * dx) = Fin x2" "\<bar>x2\<bar> \<le> 32 * 10 ^ 300" "0 \<le> x2"
    by auto
  from fin_bound [OF sq [OF dy(2)] small2] obtain y2 where
    y2: "fin rt (dy * dy) = Fin y2" "\<bar>y2\<bar> \<le> 32 * 10 ^ 300" "0 \<le> y2"
    by auto
  have sum: "\<bar>x2 + y2\<bar> \<le> 64 * 10 ^ 300" using x2(2) y2(2) by linarith
  have small3: "(64::real) * 10 ^ 300 \<le> 10 ^ 303" by simp
  from fin_bound [OF sum small3] x2(3) y2(3) obtain s where
    s: "fin rt (x2 + y2) = Fin s" "\<bar>s\<bar> \<le> 128 * 10 ^ 300" "0 \<le> s"
    by auto
  have "sqrt s \<le> 10 ^ 303"
  proof (cases "s \<le> 1")
    case True
    with s(3) have "sqrt s \<le> 1" by simp
    moreover have "(1::real) \<le> 10 ^ 303" by simp
    ultimately show ?thesis by (rule order_trans)
  next
    case False
    then have "1 \<le> sqrt s" by simp
    then have "sqrt s * 1 \<le> sqrt s * sqrt s" by (intro mult_left_mono) auto
    then have "sqrt s \<le> s" using s(3) by simp
    moreover have "s \<le> 10 ^ 303" using s(2,3) by simp
    ultimately show ?thesis by (rule order_trans)
  qed
  moreover have "0 \<le> sqrt s" using s(3) by simp
  ultimately have "\<bar>sqrt s\<bar> \<le> 10 ^ 303" by (simp only: abs_of_nonneg)
  from fin_bound [OF this order_refl] obtain r where r: "fin rt (sqrt s) = Fin r" by auto
  have "distance rt p w = Fin r"
    using s(3) by (simp add: distance_def Let_def js_sub_def pa(1,2) wc(1,2) dx(1) dy(1) x2(1) y2(1) s(1) r)
  then show "js_lt (distance rt p w) PInf" by simp
qed

section \<open>The runtime of the examples\<close>

lemma fin_exact: "\<bar>x\<bar> < MAX_OVERFLOW \<Longrightarrow> fin exact x = Fin x"
  by (auto simp: fin_def exact_def)

lemma MAX_OVERFLOW_big: "10 ^ 6 < MAX_OVERFLOW"
  by (simp add: MAX_OVERFLOW_def)

lemma fin_small: "\<bar>x\<bar> \<le> 10 ^ 6 \<Longrightarrow> fin exact x = Fin x"
  using MAX_OVERFLOW_big by (intro fin_exact) linarith

lemma js_sqrt_small:
  assumes "0 \<le> x" "x \<le> 1"
  shows "js_sqrt exact (Fin x) = Fin (sqrt x)"
proof -
  have "sqrt x \<le> 1" using assms by simp
  moreover have "(1::real) \<le> 10 ^ 6" by simp
  ultimately have "sqrt x \<le> 10 ^ 6" by (rule order_trans)
  moreover have "\<bar>sqrt x\<bar> = sqrt x" using assms by simp
  ultimately have "\<bar>sqrt x\<bar> \<le> 10 ^ 6" by (simp only:)
  then have "fin exact (sqrt x) = Fin (sqrt x)" by (rule fin_small)
  with assms show ?thesis by simp
qed

lemma distance_small:
  assumes "lat c = Fin a" "lng c = Fin b" "lat w = Fin a'" "lng w = Fin b'"
    and "(a' - a) * (a' - a) + (b' - b) * (b' - b) \<le> 1"
  shows "distance exact c w = Fin (sqrt ((a' - a) * (a' - a) + (b' - b) * (b' - b)))"
proof -
  have nn: "0 \<le> x * x" for x :: real by simp
  have dx2: "(a' - a) * (a' - a) \<le> 1" using assms(5) nn [of "b' - b"] by linarith
  have dy2: "(b' - b) * (b' - b) \<le> 1" using assms(5) nn [of "a' - a"] by linarith
  have sq: "\<bar>x\<bar> \<le> 1" if "x * x \<le> 1" for x :: real
    using that by (metis abs_le_square_iff abs_one mult_1 power2_eq_square)
  have f1: "fin exact (a' - a) = Fin (a' - a)" "fin exact (b' - b) = Fin (b' - b)"
    using sq [OF dx2] sq [OF dy2] by (auto intro!: fin_small)
  have f2: "fin exact ((a' - a) * (a' - a)) = Fin ((a' - a) * (a' - a))"
    "fin exact ((b' - b) * (b' - b)) = Fin ((b' - b) * (b' - b))"
    using dx2 dy2 nn [of "a' - a"] nn [of "b' - b"] by (auto intro!: fin_small)
  have f3: "fin exact ((a' - a) * (a' - a) + (b' - b) * (b' - b))
      = Fin ((a' - a) * (a' - a) + (b' - b) * (b' - b))"
    using assms(5) nn [of "a' - a"] nn [of "b' - b"] by (intro fin_small) simp
  have s: "js_sqrt exact (Fin ((a' - a) * (a' - a) + (b' - b) * (b' - b)))
      = Fin (sqrt ((a' - a) * (a' - a) + (b' - b) * (b' - b)))"
    using assms(5) nn [of "a' - a"] nn [of "b' - b"] by (intro js_sqrt_small) simp_all
  show ?thesis
    unfolding distance_def Let_def js_sub_def assms(1-4) js_neg.simps js_add.simps js_mul.simps
    using f1 f2 f3 s by (simp add: algebra_simps)
qed

lemma to_waypoints_example: "to_waypoints [container1, container2] = Inr [waypoint1, waypoint2]"
  by (simp add: container1_def container2_def waypoint1_def waypoint2_def)

lemma distance_example1: "distance exact CODECA waypoint1 = Fin (sqrt (1 / 20000))"
  using distance_small [of CODECA "- 29.1750" "- 51.1850" waypoint1 "- 29.18" "- 51.19"]
  by (simp add: CODECA_def waypoint1_def)

lemma distance_example2: "distance exact CODECA waypoint2 = Fin (sqrt (9 / 20000))"
  using distance_small [of CODECA "- 29.1750" "- 51.1850" waypoint2 "- 29.16" "- 51.17"]
  by (simp add: CODECA_def waypoint2_def)

lemma distance_example12: "distance exact waypoint1 waypoint2 = Fin (sqrt (1 / 1250))"
  using distance_small [of waypoint1 "- 29.18" "- 51.19" waypoint2 "- 29.16" "- 51.17"]
  by (simp add: waypoint1_def waypoint2_def)

lemma distance_example21: "distance exact waypoint2 waypoint1 = Fin (sqrt (1 / 1250))"
  using distance_small [of waypoint2 "- 29.16" "- 51.17" waypoint1 "- 29.18" "- 51.19"]
  by (simp add: waypoint1_def waypoint2_def)

lemma distance_example11: "distance exact waypoint1 waypoint1 = Fin 0"
  using distance_small [of waypoint1 "- 29.18" "- 51.19" waypoint1 "- 29.18" "- 51.19"]
  by (simp add: waypoint1_def)

lemma distance_example22: "distance exact waypoint2 waypoint2 = Fin 0"
  using distance_small [of waypoint2 "- 29.16" "- 51.17" waypoint2 "- 29.16" "- 51.17"]
  by (simp add: waypoint2_def)

lemma finite_distances_example: "finite_distances exact [waypoint1, waypoint2]"
  by (simp add: finite_distances_def distance_example1 distance_example2 distance_example12
      distance_example21 distance_example11 distance_example22)

lemma sequence_tour_example:
  "\<exists>tour order. sequence exact [container1, container2] = Some (Inr tour)
      \<and> length tour = length [container1, container2] + 2 \<and> hd tour = CODECA \<and> last tour = CODECA
      \<and> tour = CODECA # map ((!) [waypoint1, waypoint2]) order @ [CODECA]
      \<and> distinct order \<and> set order = {..<length [waypoint1, waypoint2]}
      \<and> mset (map ((!) [waypoint1, waypoint2]) order) = mset [waypoint1, waypoint2]"
  by (rule sequence_tour [OF _ to_waypoints_example finite_distances_example]) simp

section \<open>C1: finite coordinates whose distance overflows\<close>

lemma js_mul_self_large:
  assumes "2 ^ 600 \<le> u"
  shows "js_mul rt (Fin u) (Fin u) = PInf"
proof -
  have "(2::real) ^ 600 * 2 ^ 600 \<le> u * u"
    using assms by (intro mult_mono) auto
  moreover have "MAX_OVERFLOW \<le> (2::real) ^ 600 * 2 ^ 600"
    by (simp add: MAX_OVERFLOW_def)
  ultimately have "MAX_OVERFLOW \<le> u * u" by linarith
  then show ?thesis by (simp add: fin_def)
qed

lemma distance_overflow:
  assumes rounding: "\<forall>x. 2 ^ 600 \<le> x \<longrightarrow> 2 ^ 600 \<le> rnd rt x"
    and w: "lat w = Fin a" "2 ^ 601 \<le> a"
    and c: "lat c = Fin b" "\<bar>b\<bar> \<le> 2 ^ 600"
  shows "\<not> js_lt (distance rt c w) PInf"
proof -
  let ?dx = "js_sub rt (lat w) (lat c)" and ?dy = "js_sub rt (lng w) (lng c)"
  have big: "(2::real) ^ 600 \<le> a - b" using w(2) c(2) by simp
  have pos: "0 < MAX_OVERFLOW" by (rule MAX_OVERFLOW_pos)
  have dx: "?dx = PInf \<or> (\<exists>u. ?dx = Fin u \<and> 2 ^ 600 \<le> u)"
  proof (cases "MAX_OVERFLOW \<le> a - b")
    case True
    then show ?thesis by (simp add: w(1) c(1) js_sub_def fin_def)
  next
    case False
    from big have nz: "a - b \<noteq> 0" "\<not> a - b \<le> - MAX_OVERFLOW" using pos by auto
    from rounding big have "2 ^ 600 \<le> rnd rt (a - b)" by blast
    with False nz show ?thesis by (simp add: w(1) c(1) js_sub_def fin_def)
  qed
  then have "js_mul rt ?dx ?dx = PInf"
  proof
    assume "?dx = PInf"
    then show ?thesis by simp
  next
    assume "\<exists>u. ?dx = Fin u \<and> 2 ^ 600 \<le> u"
    then obtain u where u: "?dx = Fin u" and "2 ^ 600 \<le> u" by blast
    from this(2) have "js_mul rt (Fin u) (Fin u) = PInf" by (rule js_mul_self_large)
    with u show ?thesis by simp
  qed
  then have "js_add rt (js_mul rt ?dx ?dx) (js_mul rt ?dy ?dy) \<in> {PInf, NaN}"
    using js_add_not_finite_left [of "js_mul rt ?dx ?dx" "js_mul rt ?dy ?dy" rt]
      js_mul_self_not_NInf [of rt ?dy] by simp
  then show ?thesis by (auto simp: distance_def Let_def)
qed

text \<open>
  Claim C1 asks for latitudes and longitudes that parse to finite numbers, and then
  promises a tour. The code checks nothing of the kind. Take finite coordinates, one
  container \<open>k\<close> of a latitude of \<open>2 ^ 601\<close> or more (\<^verbatim>\<open>"1e200"\<close> is one), the others
  of a latitude of magnitude up to \<open>2 ^ 600\<close>, on a runtime whose rounding takes no
  number from \<open>2 ^ 600\<close> on below \<open>2 ^ 600\<close>, as every rounding to doubles does. From the
  depot and from every other container the square of the difference of the latitudes
  overflows to \<^verbatim>\<open>Infinity\<close>, line 213 compares \<^verbatim>\<open>Infinity < Infinity\<close>, container
  \<open>k\<close> is never visited, and the \<^verbatim>\<open>while\<close> loop of line 202 never ends: the
  sequencing step returns no tour, and \<^verbatim>\<open>calculateRoute\<close> returns nothing.
\<close>

theorem sequence_overflow_never_returns:
  assumes "\<forall>x. 2 ^ 600 \<le> x \<longrightarrow> 2 ^ 600 \<le> rnd rt x"
    and "containers \<noteq> []" and "to_waypoints containers = Inr ws"
    and "\<forall>w \<in> set ws. is_finite (lat w) \<and> is_finite (lng w)"
    and "k < length ws" and "lat (ws ! k) = Fin a" and "2 ^ 601 \<le> a"
    and "\<forall>j<length ws. j \<noteq> k \<longrightarrow> (\<exists>b. lat (ws ! j) = Fin b \<and> \<bar>b\<bar> \<le> 2 ^ 600)"
  shows "sequence rt containers = None \<and> calculateRoute rt conv fetch containers = None"
proof -
  define I where "I st \<longleftrightarrow> seq_inv ws st \<and> k \<notin> visited st" for st :: seq_state
  have step: "card (visited st) < length ws \<and> I (loop_body rt ws st)" if "I st" for st
  proof
    from that have inv: "seq_inv ws st" and k: "k \<notin> visited st" by (simp_all add: I_def)
    from inv obtain order where vis: "set order = visited st"
      and sub: "visited st \<subseteq> {..<length ws}"
      by (auto simp: seq_inv_def)
    from sub k have "visited st \<subseteq> {..<length ws} - {k}" by auto
    then have "card (visited st) \<le> card ({..<length ws} - {k})"
      by (intro card_mono) auto
    also have "\<dots> < length ws" using assms(5) by simp
    finally show "card (visited st) < length ws" .
    let ?cur = "last (optimizedRoute st)"
    have "\<exists>b. lat ?cur = Fin b \<and> \<bar>b\<bar> \<le> 2 ^ 600"
      using seq_inv_last [OF inv]
    proof
      assume "?cur = CODECA"
      then show ?thesis by (simp add: CODECA_def)
    next
      assume "\<exists>j \<in> visited st. j < length ws \<and> ?cur = ws ! j"
      then obtain j where "j \<in> visited st" "j < length ws" "?cur = ws ! j" by blast
      with k assms(8) show ?thesis by auto
    qed
    then obtain b where b: "lat ?cur = Fin b" "\<bar>b\<bar> \<le> 2 ^ 600" by blast
    have far: "\<not> js_lt (distance rt ?cur (ws ! k)) PInf"
      using assms(1) assms(6) assms(7) b by (rule distance_overflow)
    have "k \<notin> visited (loop_body rt ws st)"
    proof (cases "fst (scan rt ?cur ws (visited st))")
      case None
      then show ?thesis using k by (simp add: loop_body_def)
    next
      case (Some i)
      from scan_Some(3) [OF Some] far have "i \<noteq> k" by auto
      with Some k show ?thesis by (simp add: loop_body_def)
    qed
    with seq_inv_loop_body [OF inv] show "I (loop_body rt ws st)" by (simp add: I_def)
  qed
  have "I \<lparr>optimizedRoute = [CODECA], visited = {}\<rparr>" by (simp add: I_def seq_inv_init)
  with step have "sequence_loop rt ws \<lparr>optimizedRoute = [CODECA], visited = {}\<rparr> = None"
    by (rule sequence_loop_diverges)
  with assms(2,3) show ?thesis by (simp add: sequence_def calculateRoute_def)
qed

lemma to_waypoints_far:
  "to_waypoints [container1, far_container] = Inr [waypoint1, far_waypoint]"
  by (simp add: container1_def far_container_def waypoint1_def far_waypoint_def)

theorem sequence_overflow_never_returns_witness:
  "is_finite (lat waypoint1) \<and> is_finite (lng waypoint1)
   \<and> is_finite (lat far_waypoint) \<and> is_finite (lng far_waypoint)
   \<and> to_waypoints [container1, far_container] = Inr [waypoint1, far_waypoint]
   \<and> sequence exact [container1, far_container] = None
   \<and> calculateRoute exact plain_conv short_fetch [container1, far_container] = None"
proof -
  have finite: "\<forall>w \<in> set [waypoint1, far_waypoint]. is_finite (lat w) \<and> is_finite (lng w)"
    by (simp add: waypoint1_def far_waypoint_def)
  have rounding: "\<forall>x. 2 ^ 600 \<le> x \<longrightarrow> 2 ^ 600 \<le> rnd exact x"
    by (simp add: exact_def)
  have far: "lat ([waypoint1, far_waypoint] ! 1) = Fin (10 ^ 200)"
    by (simp add: far_waypoint_def)
  have large: "(2::real) ^ 601 \<le> 10 ^ 200" by simp
  have others: "\<forall>j<length [waypoint1, far_waypoint]. j \<noteq> 1 \<longrightarrow>
      (\<exists>b. lat ([waypoint1, far_waypoint] ! j) = Fin b \<and> \<bar>b\<bar> \<le> 2 ^ 600)"
    by (simp add: waypoint1_def less_Suc_eq)
  have "sequence exact [container1, far_container] = None
     \<and> calculateRoute exact plain_conv short_fetch [container1, far_container] = None"
    by (rule sequence_overflow_never_returns [OF rounding _ to_waypoints_far finite _ far large others])
      simp_all
  with finite to_waypoints_far show ?thesis by simp
qed

section \<open>C2: a coordinate that is not a finite number\<close>

text \<open>
  Claim C2 says that a container whose latitude or longitude does not parse to a finite
  number makes \<^verbatim>\<open>calculateRoute\<close> fail with an error. The code checks the list for
  emptiness only. With a coordinate that is NaN or infinite the distance to that
  container is never below \<^verbatim>\<open>Infinity\<close>, so it is never visited, and the \<^verbatim>\<open>while\<close>
  loop of line 202 never ends: no error, and no result.
\<close>

theorem sequence_never_returns:
  assumes "containers \<noteq> []" and "to_waypoints containers = Inr ws"
    and "\<exists>w \<in> set ws. \<not> is_finite (lat w) \<or> \<not> is_finite (lng w)"
  shows "sequence rt containers = None \<and> calculateRoute rt conv fetch containers = None"
proof -
  from assms(3) obtain k where k: "k < length ws"
    and bad: "\<not> is_finite (lat (ws ! k)) \<or> \<not> is_finite (lng (ws ! k))"
    by (auto simp: in_set_conv_nth)
  define I where "I st \<longleftrightarrow> finite (visited st) \<and> visited st \<subseteq> {..<length ws} - {k}" for st :: seq_state
  have step: "card (visited st) < length ws \<and> I (loop_body rt ws st)" if "I st" for st
  proof
    from that have fin: "finite (visited st)" and sub: "visited st \<subseteq> {..<length ws} - {k}"
      by (simp_all add: I_def)
    have "card (visited st) \<le> card ({..<length ws} - {k})"
      using sub by (intro card_mono) auto
    also have "\<dots> < length ws" using k by simp
    finally show "card (visited st) < length ws" .
    show "I (loop_body rt ws st)"
    proof (cases "fst (scan rt (last (optimizedRoute st)) ws (visited st))")
      case None
      then show ?thesis using that by (simp add: loop_body_def)
    next
      case (Some i)
      from scan_Some(1,3) [OF Some] have "i < length ws"
        "js_lt (distance rt (last (optimizedRoute st)) (ws ! i)) PInf" by simp_all
      with distance_not_finite [OF bad] have "i \<noteq> k" by auto
      with Some \<open>i < length ws\<close> fin sub show ?thesis
        by (auto simp: loop_body_def I_def)
    qed
  qed
  have "I \<lparr>optimizedRoute = [CODECA], visited = {}\<rparr>" by (simp add: I_def)
  with step have "sequence_loop rt ws \<lparr>optimizedRoute = [CODECA], visited = {}\<rparr> = None"
    by (rule sequence_loop_diverges)
  with assms(1,2) show ?thesis by (simp add: sequence_def calculateRoute_def)
qed

theorem sequence_never_returns_witness:
  "sequence exact [Container NaN (Fin (- 51.19)) ''Container 1''] = None
   \<and> calculateRoute exact plain_conv short_fetch [Container NaN (Fin (- 51.19)) ''Container 1''] = None"
  by (rule sequence_never_returns [where ws = "[\<lparr>lat = NaN, lng = Fin (- 51.19), name = ''Container 1''\<rparr>]"]) simp_all

text \<open>The two errors of the sequencing step.\<close>

lemma sequence_empty: "sequence rt [] = Some (Inl (Error ''No containers provided''))"
  by (simp add: sequence_def)

lemma sequence_unreadable:
  "Unreadable \<in> set containers \<Longrightarrow> sequence rt containers = Some (Inl TypeError)"
proof -
  assume a: "Unreadable \<in> set containers"
  then have "to_waypoints containers = Inl TypeError"
    by (induction containers rule: to_waypoints.induct) (auto split: sum.splits)
  with a show ?thesis by (auto simp: sequence_def)
qed

section \<open>C6: what an iteration of the loop appends\<close>

text \<open>
  Where an iteration appends a waypoint. Whatever the route and the set of visited
  indices: either nothing is appended, and then no unvisited waypoint is at a distance
  below \<^verbatim>\<open>Infinity\<close> from the last point of the route; or the waypoint of an
  unvisited index \<open>i\<close> is appended and \<open>i\<close> is marked visited, no unvisited waypoint is
  at a smaller distance from the last point of the route, and no unvisited waypoint of
  a lower index is at the same distance: of waypoints at equal distance, the one of the
  lowest index is taken. The distance is the double that
  \<^verbatim>\<open>Math.sqrt(dx * dx + dy * dy)\<close> yields, with \<^verbatim>\<open>dx\<close> the difference of the
  latitudes and \<^verbatim>\<open>dy\<close> the difference of the longitudes, each operation rounded.
\<close>

lemma loop_body_nearest:
  "(\<forall>c w. distance rt c w =
       js_sqrt rt (js_add rt
         (js_mul rt (js_sub rt (lat w) (lat c)) (js_sub rt (lat w) (lat c)))
         (js_mul rt (js_sub rt (lng w) (lng c)) (js_sub rt (lng w) (lng c)))))
   \<and> ((loop_body rt ws st = st
        \<and> (\<forall>j<length ws. j \<notin> visited st \<longrightarrow>
              \<not> js_lt (distance rt (last (optimizedRoute st)) (ws ! j)) PInf))
     \<or> (\<exists>i<length ws. i \<notin> visited st
        \<and> loop_body rt ws st = st\<lparr>optimizedRoute := optimizedRoute st @ [ws ! i],
                                visited := insert i (visited st)\<rparr>
        \<and> js_lt (distance rt (last (optimizedRoute st)) (ws ! i)) PInf
        \<and> (\<forall>j<length ws. j \<notin> visited st \<longrightarrow>
              \<not> js_lt (distance rt (last (optimizedRoute st)) (ws ! j))
                      (distance rt (last (optimizedRoute st)) (ws ! i)))
        \<and> (\<forall>j<i. j \<notin> visited st \<longrightarrow>
              distance rt (last (optimizedRoute st)) (ws ! j)
                \<noteq> distance rt (last (optimizedRoute st)) (ws ! i))))"
proof (intro conjI allI)
  show "distance rt c w =
       js_sqrt rt (js_add rt
         (js_mul rt (js_sub rt (lat w) (lat c)) (js_sub rt (lat w) (lat c)))
         (js_mul rt (js_sub rt (lng w) (lng c)) (js_sub rt (lng w) (lng c))))" for c w
    by (simp add: distance_def Let_def)
next
  show "(loop_body rt ws st = st
        \<and> (\<forall>j<length ws. j \<notin> visited st \<longrightarrow>
              \<not> js_lt (distance rt (last (optimizedRoute st)) (ws ! j)) PInf))
     \<or> (\<exists>i<length ws. i \<notin> visited st
        \<and> loop_body rt ws st = st\<lparr>optimizedRoute := optimizedRoute st @ [ws ! i],
                                visited := insert i (visited st)\<rparr>
        \<and> js_lt (distance rt (last (optimizedRoute st)) (ws ! i)) PInf
        \<and> (\<forall>j<length ws. j \<notin> visited st \<longrightarrow>
              \<not> js_lt (distance rt (last (optimizedRoute st)) (ws ! j))
                      (distance rt (last (optimizedRoute st)) (ws ! i)))
        \<and> (\<forall>j<i. j \<notin> visited st \<longrightarrow>
              distance rt (last (optimizedRoute st)) (ws ! j)
                \<noteq> distance rt (last (optimizedRoute st)) (ws ! i)))"
  proof (cases "fst (scan rt (last (optimizedRoute st)) ws (visited st))")
    case None
    then have "loop_body rt ws st = st" by (simp add: loop_body_def)
    with scan_None [OF None] show ?thesis by blast
  next
    case (Some i)
    then have "loop_body rt ws st = st\<lparr>optimizedRoute := optimizedRoute st @ [ws ! i],
        visited := insert i (visited st)\<rparr>"
      by (simp add: loop_body_def)
    with scan_Some [OF Some] show ?thesis by blast
  qed
qed




section \<open>The two ways through a leg\<close>

lemma leg_failed: "provider_failed r \<Longrightarrow> leg rt conv r origin dest t = fallback rt origin dest t"
  by (auto simp: provider_failed_def leg_def try_block_def split: fetched.splits)

lemma leg_succeeded:
  assumes "provider_succeeded conv data meters seconds"
  shows "leg rt conv (Body data) origin dest t =
           t\<lparr>allPolylinePoints := concat_value (allPolylinePoints t) (coordinates_of data),
             totalDistance := js_add rt (totalDistance t) (js_div_by rt meters 1000),
             totalDuration := js_add rt (totalDuration t) (js_div_by rt seconds 60)\<rparr>"
  using assms
  by (simp add: provider_succeeded_def leg_def try_block_def route_of_def coordinates_of_def Let_def)

text \<open>
  A response of the documented shape, with an array of coordinates and with numbers
  where \<^verbatim>\<open>distance\<close> and \<^verbatim>\<open>duration\<close> are present, is one that succeeds.
\<close>

lemma provider_succeeded_numbers:
  assumes "\<not> nullish data" "response_ok data" "geometry_ok (js_get (route_of data) ''geometry'')"
    and "coordinates_of data = JArr xs"
    and "js_get (route_of data) ''distance'' = JUndefined \<or> (\<exists>n. js_get (route_of data) ''distance'' = JNum n)"
    and "js_get (route_of data) ''duration'' = JUndefined \<or> (\<exists>n. js_get (route_of data) ''duration'' = JNum n)"
  shows "\<exists>meters seconds. provider_succeeded conv data meters seconds"
  using assms by (auto simp: provider_succeeded_def or_zero_def)

text \<open>
  An exception of line 258 or 259, after line 255 has appended the coordinates: the
  \<^verbatim>\<open>catch\<close> block runs the fallback on the polyline as it is then.
\<close>

lemma leg_late_exception:
  assumes "with_geometry data"
    and "ToNumber conv (or_zero (js_get (route_of data) ''distance'')) = Inl e
       \<or> ToNumber conv (or_zero (js_get (route_of data) ''duration'')) = Inl e"
  shows "leg rt conv (Body data) origin dest t =
           fallback rt origin dest
             (t\<lparr>allPolylinePoints := concat_value (allPolylinePoints t) (coordinates_of data)\<rparr>)"
  using assms
  by (auto simp: with_geometry_def leg_def try_block_def route_of_def coordinates_of_def Let_def
      split: sum.splits)

section \<open>C4: a response without a usable geometry\<close>

text \<open>
  Claim C4 says that a leg takes the fallback when the geometry of the response is
  missing or malformed. The code does so when the call throws or the condition of line
  250 fails (lemma \<open>leg_failed\<close>). When that condition holds and the one of line 254
  fails (no geometry, a type other than \<^verbatim>\<open>LineString\<close>, no coordinates), the
  \<^verbatim>\<open>if\<close> of line 254 has no \<^verbatim>\<open>else\<close>: the leg leaves the polyline and both totals
  as they were, with no straight line and no estimate.
\<close>

theorem leg_without_geometry:
  assumes "\<not> nullish data" and "response_ok data"
    and "\<not> geometry_ok (js_get (index0 (js_get data ''routes'')) ''geometry'')"
  shows "leg rt conv (Body data) origin dest t = t"
  using assms by (simp add: leg_def try_block_def Let_def)

theorem leg_without_geometry_witness:
  "leg exact plain_conv (Body no_geometry) CODECA waypoint1 start = start"
  by (rule leg_without_geometry) (simp_all add: no_geometry_def response_ok_def geometry_ok_def)

section \<open>C10: a route without distance or duration\<close>

lemma fin_0: "fin rt 0 = Fin 0"
  using MAX_OVERFLOW_pos by (simp add: fin_def)

lemma fin_pi:
  assumes "\<bar>k\<bar> \<le> 10 ^ 5"
  shows "fin exact (k * pi) = Fin (k * pi)"
proof (rule fin_small)
  have "\<bar>k * pi\<bar> = \<bar>k\<bar> * pi" by (simp add: abs_mult)
  also have "\<dots> \<le> 10 ^ 5 * 4"
    using assms pi_less_4 by (intro mult_mono) auto
  finally show "\<bar>k * pi\<bar> \<le> 10 ^ 6" by simp
qed

lemma Math_PI_exact: "Math_PI exact = Fin pi"
  using fin_pi [of 1] by (simp add: Math_PI_def)

lemma provider_succeeded_no_distance: "provider_succeeded conv no_distance (Fin 0) (Fin 3)"
  by (simp add: provider_succeeded_def no_distance_def response_ok_def geometry_ok_def route_of_def
      coordinates_of_def or_zero_def)

text \<open>
  Claim C10, amended. For every leg whose response has the code \<^verbatim>\<open>"Ok"\<close> and a
  \<^verbatim>\<open>LineString\<close> geometry with coordinates, and in which lines 258 to 263 throw no
  exception (the fields \<^verbatim>\<open>distance\<close> and \<^verbatim>\<open>duration\<close>, where present, convert to
  numbers, and the length of the coordinates can be printed; so it is when the
  coordinates are an array and the fields that are present are numbers): the leg
  appends the geometry and adds the converted distance over 1000 and duration over 60;
  for a field that is missing, what it adds is 0 (\<^verbatim>\<open>route.distance || 0\<close>), and the
  haversine estimate is not used.
\<close>

theorem missing_field_adds_zero:
  assumes "provider_succeeded conv data meters seconds"
  shows "leg rt conv (Body data) origin dest t =
           t\<lparr>allPolylinePoints := concat_value (allPolylinePoints t) (coordinates_of data),
             totalDistance := js_add rt (totalDistance t) (js_div_by rt meters 1000),
             totalDuration := js_add rt (totalDuration t) (js_div_by rt seconds 60)\<rparr>
     \<and> (js_get (route_of data) ''distance'' = JUndefined \<longrightarrow> js_div_by rt meters 1000 = Fin 0)
     \<and> (js_get (route_of data) ''duration'' = JUndefined \<longrightarrow> js_div_by rt seconds 60 = Fin 0)"
proof (intro conjI impI)
  show "leg rt conv (Body data) origin dest t =
           t\<lparr>allPolylinePoints := concat_value (allPolylinePoints t) (coordinates_of data),
             totalDistance := js_add rt (totalDistance t) (js_div_by rt meters 1000),
             totalDuration := js_add rt (totalDuration t) (js_div_by rt seconds 60)\<rparr>"
    using assms by (rule leg_succeeded)
next
  assume "js_get (route_of data) ''distance'' = JUndefined"
  with assms have "meters = Fin 0"
    by (simp add: provider_succeeded_def or_zero_def)
  then show "js_div_by rt meters 1000 = Fin 0" by (simp add: fin_0)
next
  assume "js_get (route_of data) ''duration'' = JUndefined"
  with assms have "seconds = Fin 0"
    by (simp add: provider_succeeded_def or_zero_def)
  then show "js_div_by rt seconds 60 = Fin 0" by (simp add: fin_0)
qed

theorem missing_field_adds_zero_witness:
  "leg exact plain_conv (Body no_distance) equator pole start =
     \<lparr>allPolylinePoints = [JArr [JNum (Fin 0), JNum (Fin 0)], JArr [JNum (Fin 0), JNum (Fin 90)]],
      totalDistance = Fin 0, totalDuration = Fin (1 / 20)\<rparr>
   \<and> js_get (route_of no_distance) ''distance'' = JUndefined"
proof -
  have "js_get (route_of no_distance) ''distance'' = JUndefined"
    by (simp add: no_distance_def route_of_def)
  moreover have "coordinates_of no_distance = JArr [JArr [JNum (Fin 0), JNum (Fin 0)], JArr [JNum (Fin 0), JNum (Fin 90)]]"
    by (simp add: coordinates_of_def no_distance_def route_of_def)
  moreover have "fin exact (1 / 20) = Fin (1 / 20)" by (rule fin_small) simp
  ultimately show ?thesis
    using missing_field_adds_zero [OF provider_succeeded_no_distance, where conv = plain_conv and rt = exact
        and origin = equator and dest = pole and t = start]
    by (simp add: start_def fin_0)
qed

text \<open>
  The quarter meridian from the equator to the pole, by the fallback's formula.
\<close>

lemma haversine_quarter: "haversine exact equator pole = Fin (6371 * pi / 2)"
proof -
  have f90: "fin exact 90 = Fin 90" by (rule fin_small) simp
  have f90pi: "fin exact (90 * pi) = Fin (90 * pi)" by (rule fin_pi) simp
  have fhalf: "fin exact (pi / 2) = Fin (pi / 2)" using fin_pi [of "1 / 2"] by simp
  have fquarter: "fin exact (pi / 4) = Fin (pi / 4)" using fin_pi [of "1 / 4"] by simp
  have half: "fin exact (1 / 2) = Fin (1 / 2)" by (rule fin_small) simp
  have one: "fin exact 1 = Fin 1" by (rule fin_small) simp
  have r: "fin exact (6371 * pi / 2) = Fin (6371 * pi / 2)" using fin_pi [of "6371 / 2"] by simp
  have root: "fin exact (sqrt (1 / 2)) = Fin (sqrt (1 / 2))"
    using js_sqrt_small [of "1 / 2"] by simp
  have sn: "Math_sin exact = sin" and cs: "Math_cos exact = cos" and at: "Math_atan2 exact = atan2"
    by (simp_all add: exact_def)
  have dLat: "js_div_by exact (js_mul exact (js_sub exact (Fin 90) (Fin 0)) (Fin pi)) 180 = Fin (pi / 2)"
    by (simp add: js_sub_def f90 f90pi fhalf)
  have dLng: "js_div_by exact (js_mul exact (js_sub exact (Fin 0) (Fin 0)) (Fin pi)) 180 = Fin 0"
    by (simp add: js_sub_def fin_0)
  have sq: "sin (pi / 4) * sin (pi / 4) = 1 / 2"
    by (simp add: sin_45)
  have a1: "js_mul exact (js_sin exact (js_div_by exact (Fin (pi / 2)) 2)) (js_sin exact (js_div_by exact (Fin (pi / 2)) 2)) = Fin (1 / 2)"
    by (simp add: fquarter sq half sn)
  have a2: "js_mul exact (js_mul exact (js_mul exact (js_cos exact (js_div_by exact (js_mul exact (Fin 0) (Fin pi)) 180))
                            (js_cos exact (js_div_by exact (js_mul exact (Fin 90) (Fin pi)) 180)))
                    (js_sin exact (js_div_by exact (Fin 0) 2)))
                  (js_sin exact (js_div_by exact (Fin 0) 2)) = Fin 0"
    by (simp add: fin_0 f90pi fhalf sn cs)
  have pos: "0 < sqrt (1 / 2 :: real)" by simp
  have "atan2 (sqrt (1 / 2)) (sqrt (1 / 2)) = arctan 1"
    unfolding atan2_def using pos by simp
  then have quarter: "atan2 (sqrt (1 / 2)) (sqrt (1 / 2)) = pi / 4"
    by (simp add: arctan_one)
  have c: "js_atan2 exact (js_sqrt exact (Fin (1 / 2))) (js_sqrt exact (js_sub exact (Fin 1) (Fin (1 / 2)))) = Fin (pi / 4)"
    using quarter by (simp add: js_sub_def half root at)
  have a: "js_add exact (Fin (1 / 2)) (Fin 0) = Fin (1 / 2)" by (simp add: half)
  have c2: "js_mul exact (Fin 2) (Fin (pi / 4)) = Fin (pi / 2)" by (simp add: fhalf)
  have rc: "js_mul exact (Fin 6371) (Fin (pi / 2)) = Fin (6371 * pi / 2)" by (simp add: r)
  show ?thesis
    unfolding haversine_def Let_def equator_def pole_def waypoint.simps Math_PI_exact dLat dLng a1 a2 a c c2 rc ..
qed

text \<open>
  The claim as it is written has no condition on the field that is present. With the
  \<^verbatim>\<open>distance\<close> missing and the \<^verbatim>\<open>duration\<close> \<^verbatim>\<open>{"toString": 1}\<close>, an object that
  cannot be converted to a number, line 259 throws a TypeError after line 255 has
  appended the geometry, and the \<^verbatim>\<open>catch\<close> block runs the fallback: two more points,
  and the haversine distance of the leg instead of 0.
\<close>

theorem missing_field_counterexample:
  "response_ok unconvertible
   \<and> geometry_ok (js_get (route_of unconvertible) ''geometry'')
   \<and> js_get (route_of unconvertible) ''distance'' = JUndefined
   \<and> leg exact plain_conv (Body unconvertible) equator pole start =
       \<lparr>allPolylinePoints = [JArr [JNum (Fin 0), JNum (Fin 0)], JArr [JNum (Fin 0), JNum (Fin 90)],
                              point equator, point pole],
        totalDistance = Fin (6371 * pi / 2), totalDuration = Fin (6371 * pi / 80)\<rparr>
   \<and> Fin (6371 * pi / 2) \<noteq> js_add exact (totalDistance start) (Fin 0)"
proof -
  have ok: "response_ok unconvertible"
    by (simp add: unconvertible_def response_ok_def)
  have geo: "geometry_ok (js_get (route_of unconvertible) ''geometry'')"
    by (simp add: unconvertible_def geometry_ok_def route_of_def)
  have nod: "js_get (route_of unconvertible) ''distance'' = JUndefined"
    by (simp add: unconvertible_def route_of_def)
  have coords: "js_get (js_get (route_of unconvertible) ''geometry'') ''coordinates''
      = JArr [JArr [JNum (Fin 0), JNum (Fin 0)], JArr [JNum (Fin 0), JNum (Fin 90)]]"
    by (simp add: unconvertible_def route_of_def)
  have dur: "ToNumber plain_conv (or_zero (js_get (route_of unconvertible) ''duration'')) = Inl TypeError"
    by (simp add: unconvertible_def route_of_def or_zero_def plain_conv_def)
  have nn: "\<not> nullish unconvertible" by (simp add: unconvertible_def)
  have tb: "try_block exact plain_conv (Body unconvertible) equator pole start
      = Inl (start\<lparr>allPolylinePoints := [JArr [JNum (Fin 0), JNum (Fin 0)], JArr [JNum (Fin 0), JNum (Fin 90)]]\<rparr>)"
    using ok geo nod coords dur nn
    by (simp add: try_block_def route_of_def Let_def or_zero_def start_def)
  have f1: "fin exact (6371 * pi / 2) = Fin (6371 * pi / 2)" using fin_pi [of "6371 / 2"] by simp
  have f2: "fin exact (6371 * pi / 80) = Fin (6371 * pi / 80)" using fin_pi [of "6371 / 80"] by simp
  have leg: "leg exact plain_conv (Body unconvertible) equator pole start =
       \<lparr>allPolylinePoints = [JArr [JNum (Fin 0), JNum (Fin 0)], JArr [JNum (Fin 0), JNum (Fin 90)],
                              point equator, point pole],
        totalDistance = Fin (6371 * pi / 2), totalDuration = Fin (6371 * pi / 80)\<rparr>"
    unfolding leg_def tb
    by (simp add: fallback_def haversine_quarter start_def f1 f2)
  have "6371 * pi / 2 \<noteq> 0" using pi_gt_zero by simp
  then have ne: "Fin (6371 * pi / 2) \<noteq> js_add exact (totalDistance start) (Fin 0)"
    by (simp add: start_def fin_0)
  from ok geo nod leg ne show ?thesis by simp
qed

section \<open>C8: the polyline, leg by leg\<close>

lemma calculateRoute_Inr:
  "calculateRoute rt conv fetch containers = Some (Inr r) \<Longrightarrow>
     \<exists>tour. sequence rt containers = Some (Inr tour) \<and> r = finish tour (legs rt conv fetch tour)"
  by (auto simp: calculateRoute_def split: option.splits sum.splits)







text \<open>
  The legs that the two lemmas above leave out are those of claim C4: a response with
  the code \<^verbatim>\<open>"Ok"\<close> and a first route, but no usable geometry.
\<close>

lemma leg_three_ways:
  "provider_failed r \<or> (\<exists>data. r = Body data \<and> with_geometry data)
   \<or> (\<exists>data. r = Body data \<and> \<not> nullish data \<and> response_ok data
         \<and> \<not> geometry_ok (js_get (route_of data) ''geometry''))"
  by (cases r) (auto simp: provider_failed_def with_geometry_def)

lemma provider_succeeded_short: "provider_succeeded conv short_leg (Fin 31.25) (Fin 7.5)"
  by (simp add: provider_succeeded_def short_leg_def response_ok_def geometry_ok_def route_of_def
      coordinates_of_def or_zero_def)

lemma coordinates_of_short:
  "coordinates_of short_leg = JArr [JArr [JNum (Fin (- 51.185)), JNum (Fin (- 29.175))],
                                            JArr [JNum (Fin (- 51.1851)), JNum (Fin (- 29.1751))]]"
  by (simp add: coordinates_of_def short_leg_def route_of_def)




lemma distance_near: "distance exact CODECA near_waypoint = Fin (sqrt (1 / 50000000))"
  using distance_small [of CODECA "- 29.1750" "- 51.1850" near_waypoint "- 29.1751" "- 51.1851"]
  by (simp add: CODECA_def near_waypoint_def)

lemma sequence_near: "sequence exact [near_container] = Some (Inr [CODECA, near_waypoint, CODECA])"
proof -
  have "to_waypoints [near_container] = Inr [near_waypoint]"
    by (simp add: near_container_def near_waypoint_def)
  then show ?thesis
    by (simp add: sequence_def sequence_loop.simps loop_body_def scan_def scan_step_def distance_near)
qed

lemma provider_failed_error_body: "provider_failed (Body error_body)"
  by (simp add: provider_failed_def error_body_def response_ok_def)





section \<open>C5: the totals returned\<close>

lemma finish_positive:
  "js_gt (finalDistance (finish tour t)) (Fin 0) \<and> js_gt (finalDuration (finish tour t)) (Fin 0)"
  by (simp add: finish_def js_gt_def)

lemma legs_short:
  "legs exact conv short_fetch [CODECA, near_waypoint, CODECA] =
     \<lparr>allPolylinePoints = [JArr [JNum (Fin (- 51.185)), JNum (Fin (- 29.175))],
                            JArr [JNum (Fin (- 51.1851)), JNum (Fin (- 29.1751))],
                            JArr [JNum (Fin (- 51.185)), JNum (Fin (- 29.175))],
                            JArr [JNum (Fin (- 51.1851)), JNum (Fin (- 29.1751))]],
      totalDistance = Fin (1 / 16), totalDuration = Fin (1 / 4)\<rparr>"
proof -
  have upt: "[0..<2] = [0, Suc 0]" by (simp add: upt_rec)
  have f: "fin exact (1 / 32) = Fin (1 / 32)" "fin exact (1 / 16) = Fin (1 / 16)"
    "fin exact (1 / 8) = Fin (1 / 8)" "fin exact (1 / 4) = Fin (1 / 4)"
    by (rule fin_small, simp)+
  show ?thesis
    by (simp add: legs_def upt short_fetch_def leg_succeeded [OF provider_succeeded_short]
        coordinates_of_short start_def f)
qed

lemma calculateRoute_short:
  "calculateRoute exact plain_conv short_fetch [near_container] = Some (Inr short_result)"
  by (simp add: calculateRoute_def sequence_near legs_short finish_def js_gt_def short_result_def)

lemma provider_succeeded_zero: "provider_succeeded conv zero_leg (Fin 0) (Fin 0)"
  by (simp add: provider_succeeded_def zero_leg_def response_ok_def geometry_ok_def route_of_def
      coordinates_of_def or_zero_def)

lemma coordinates_of_zero:
  "coordinates_of zero_leg = JArr [JArr [JNum (Fin (- 51.185)), JNum (Fin (- 29.175))]]"
  by (simp add: coordinates_of_def zero_leg_def route_of_def)

lemma distance_depot: "distance exact CODECA depot_waypoint = Fin 0"
  using distance_small [of CODECA "- 29.1750" "- 51.1850" depot_waypoint "- 29.1750" "- 51.1850"]
  by (simp add: CODECA_def depot_waypoint_def)

lemma sequence_depot: "sequence exact [depot_container] = Some (Inr [CODECA, depot_waypoint, CODECA])"
proof -
  have "to_waypoints [depot_container] = Inr [depot_waypoint]"
    by (simp add: depot_container_def depot_waypoint_def)
  then show ?thesis
    by (simp add: sequence_def sequence_loop.simps loop_body_def scan_def scan_step_def distance_depot)
qed

lemma legs_zero:
  "legs exact conv zero_fetch [CODECA, depot_waypoint, CODECA] =
     \<lparr>allPolylinePoints = [JArr [JNum (Fin (- 51.185)), JNum (Fin (- 29.175))],
                            JArr [JNum (Fin (- 51.185)), JNum (Fin (- 29.175))]],
      totalDistance = Fin 0, totalDuration = Fin 0\<rparr>"
proof -
  have upt: "[0..<2] = [0, Suc 0]" by (simp add: upt_rec)
  show ?thesis
    by (simp add: legs_def upt zero_fetch_def leg_succeeded [OF provider_succeeded_zero]
        coordinates_of_zero start_def fin_0)
qed

lemma calculateRoute_zero:
  "calculateRoute exact plain_conv zero_fetch [depot_container] = Some (Inr zero_result)"
  by (simp add: calculateRoute_def sequence_depot legs_zero finish_def js_gt_def zero_result_def)

text \<open>
  Claim C5, amended. For every tour and whatever the provider answers, the two totals
  that \<^verbatim>\<open>calculateRoute\<close> returns are greater than 0; when the accumulated distance
  is 0 it returns 0.1, and when the accumulated duration is 0 it returns 1. An
  accumulated total above 0 is returned as it is, also when it is below 0.1 km or
  below 1 minute.
\<close>

theorem totals_positive:
  assumes "calculateRoute rt conv fetch containers = Some (Inr r)"
  shows "js_gt (finalDistance r) (Fin 0) \<and> js_gt (finalDuration r) (Fin 0)
     \<and> (\<exists>tour. sequence rt containers = Some (Inr tour)
          \<and> (totalDistance (legs rt conv fetch tour) = Fin 0 \<longrightarrow> finalDistance r = Fin 0.1)
          \<and> (totalDuration (legs rt conv fetch tour) = Fin 0 \<longrightarrow> finalDuration r = Fin 1)
          \<and> (js_gt (totalDistance (legs rt conv fetch tour)) (Fin 0) \<longrightarrow>
                finalDistance r = totalDistance (legs rt conv fetch tour))
          \<and> (js_gt (totalDuration (legs rt conv fetch tour)) (Fin 0) \<longrightarrow>
                finalDuration r = totalDuration (legs rt conv fetch tour)))"
proof -
  from calculateRoute_Inr [OF assms] obtain tour where
    seq: "sequence rt containers = Some (Inr tour)" and r: "r = finish tour (legs rt conv fetch tour)"
    by blast
  have "totalDistance (legs rt conv fetch tour) = Fin 0 \<longrightarrow> finalDistance r = Fin 0.1"
    and "totalDuration (legs rt conv fetch tour) = Fin 0 \<longrightarrow> finalDuration r = Fin 1"
    and "js_gt (totalDistance (legs rt conv fetch tour)) (Fin 0) \<longrightarrow>
                finalDistance r = totalDistance (legs rt conv fetch tour)"
    and "js_gt (totalDuration (legs rt conv fetch tour)) (Fin 0) \<longrightarrow>
                finalDuration r = totalDuration (legs rt conv fetch tour)"
    by (simp_all add: r finish_def js_gt_def)
  with seq finish_positive [of tour "legs rt conv fetch tour"] r show ?thesis by blast
qed

theorem totals_positive_witness:
  "calculateRoute exact plain_conv zero_fetch [depot_container] = Some (Inr zero_result)
     \<and> js_gt (finalDistance zero_result) (Fin 0) \<and> js_gt (finalDuration zero_result) (Fin 0)
     \<and> totalDistance (legs exact plain_conv zero_fetch [CODECA, depot_waypoint, CODECA]) = Fin 0
     \<and> finalDistance zero_result = Fin 0.1
     \<and> totalDuration (legs exact plain_conv zero_fetch [CODECA, depot_waypoint, CODECA]) = Fin 0
     \<and> finalDuration zero_result = Fin 1
     \<and> calculateRoute exact plain_conv short_fetch [near_container] = Some (Inr short_result)
     \<and> js_gt (totalDistance (legs exact plain_conv short_fetch [CODECA, near_waypoint, CODECA])) (Fin 0)
     \<and> finalDistance short_result = totalDistance (legs exact plain_conv short_fetch [CODECA, near_waypoint, CODECA])
     \<and> js_gt (totalDuration (legs exact plain_conv short_fetch [CODECA, near_waypoint, CODECA])) (Fin 0)
     \<and> finalDuration short_result = totalDuration (legs exact plain_conv short_fetch [CODECA, near_waypoint, CODECA])"
  using totals_positive [OF calculateRoute_zero] totals_positive [OF calculateRoute_short]
    calculateRoute_zero calculateRoute_short
  by (simp add: sequence_depot sequence_near legs_zero legs_short js_gt_def)

text \<open>
  The claim as it is written promises at least 0.1 km and at least 1 minute. A
  container near the depot, with a provider that answers 31.25 m and 7.5 s for each of
  the two legs, gets 0.0625 km and 0.25 minutes: the quotients 0.03125 and 0.125 and
  their sums are doubles, so no operation rounds.
\<close>

theorem totals_below_floor_counterexample:
  "map_option (map_sum id finalDistance) (calculateRoute exact plain_conv short_fetch [near_container])
      = Some (Inr (Fin (1 / 16)))
   \<and> map_option (map_sum id finalDuration) (calculateRoute exact plain_conv short_fetch [near_container])
      = Some (Inr (Fin (1 / 4)))
   \<and> js_lt (Fin (1 / 16)) (Fin 0.1) \<and> js_lt (Fin (1 / 4)) (Fin 1)"
  by (simp add: calculateRoute_def sequence_near legs_short finish_def js_gt_def)

section \<open>C9: the same inputs give the same route\<close>

lemma sequence_loop_result:
  assumes "sequence_loop rt ws st = Some st'" and "seq_inv ws st"
  shows "seq_inv ws st' \<and> \<not> card (visited st') < length ws"
proof -
  have "seq_inv ws st \<longrightarrow> seq_inv ws st' \<and> \<not> card (visited st') < length ws"
  proof (rule sequence_loop.raw_induct [where P = "\<lambda>rt ws st st'. seq_inv ws st \<longrightarrow> seq_inv ws st' \<and> \<not> card (visited st') < length ws", OF _ assms(1)])
    fix f rt0 ws0 st0 y
    assume IH: "\<And>rt ws st y. f rt ws st = Some y \<Longrightarrow> seq_inv ws st \<longrightarrow> seq_inv ws y \<and> \<not> card (visited y) < length ws"
      and unfold: "(if card (visited st0) < length ws0 then f rt0 ws0 (loop_body rt0 ws0 st0) else Some st0) = Some y"
    show "seq_inv ws0 st0 \<longrightarrow> seq_inv ws0 y \<and> \<not> card (visited y) < length ws0"
    proof (cases "card (visited st0) < length ws0")
      case True
      with unfold have "f rt0 ws0 (loop_body rt0 ws0 st0) = Some y" by simp
      from IH [OF this] seq_inv_loop_body show ?thesis by blast
    next
      case False
      with unfold show ?thesis by simp
    qed
  qed
  with assms(2) show ?thesis by simp
qed

lemma sequence_length:
  assumes "sequence rt containers = Some (Inr tour)"
  shows "length tour = length containers + 2"
proof -
  from assms obtain ws st' where ws: "to_waypoints containers = Inr ws"
    and run: "sequence_loop rt ws \<lparr>optimizedRoute = [CODECA], visited = {}\<rparr> = Some st'"
    and tour: "tour = optimizedRoute st' @ [CODECA]"
    by (auto simp: sequence_def split: if_splits sum.splits option.splits)
  from sequence_loop_result [OF run seq_inv_init]
  have inv: "seq_inv ws st'" and ge: "\<not> card (visited st') < length ws" by simp_all
  from inv obtain order where route: "optimizedRoute st' = CODECA # map ((!) ws) order"
    and dist: "distinct order" and vis: "set order = visited st'"
    and sub: "visited st' \<subseteq> {..<length ws}"
    by (auto simp: seq_inv_def)
  have "card (visited st') \<le> card {..<length ws}"
    using sub by (intro card_mono) auto
  with ge have "card (visited st') = length ws" by simp
  with dist vis have "length order = length ws" by (metis distinct_card)
  with route tour length_to_waypoints [OF ws] show ?thesis by simp
qed

lemma legs_cong:
  assumes "\<forall>i<length tour - 1. fetch1 i = fetch2 i"
  shows "legs rt conv fetch1 tour = legs rt conv fetch2 tour"
  unfolding legs_def using assms by (intro fold_cong) auto

text \<open>
  Claim C9. The result of a leg whose provider call failed is the fallback on the
  coordinates of its two ends and the totals so far: the same whichever way the call
  failed, and the same for ends of the same latitude and longitude. And the
  result of \<^verbatim>\<open>calculateRoute\<close> is a function of the containers, in their order, and
  of the provider's answers for the legs of the tour, one more than there are
  containers: two runs that agree on these return the same, or both never return.
\<close>

theorem calculateRoute_deterministic:
  "(provider_failed r1 \<and> provider_failed r2
      \<and> lat origin' = lat origin \<and> lng origin' = lng origin
      \<and> lat dest' = lat dest \<and> lng dest' = lng dest \<longrightarrow>
      leg rt conv1 r1 origin dest t = leg rt conv2 r2 origin' dest' t)
   \<and> ((\<forall>i\<le>length containers. fetch1 i = fetch2 i) \<longrightarrow>
      calculateRoute rt conv fetch1 containers = calculateRoute rt conv fetch2 containers)"
proof (intro conjI impI)
  assume "provider_failed r1 \<and> provider_failed r2
      \<and> lat origin' = lat origin \<and> lng origin' = lng origin
      \<and> lat dest' = lat dest \<and> lng dest' = lng dest"
  then show "leg rt conv1 r1 origin dest t = leg rt conv2 r2 origin' dest' t"
    by (simp add: leg_failed fallback_def haversine_def point_def)
next
  assume same: "\<forall>i\<le>length containers. fetch1 i = fetch2 i"
  show "calculateRoute rt conv fetch1 containers = calculateRoute rt conv fetch2 containers"
  proof (cases "sequence rt containers")
    case None
    then show ?thesis by (simp add: calculateRoute_def)
  next
    case (Some res)
    show ?thesis
    proof (cases res)
      case (Inl e)
      with Some show ?thesis by (simp add: calculateRoute_def)
    next
      case (Inr tour)
      with Some have "length tour = length containers + 2" by (simp add: sequence_length)
      with same have "\<forall>i<length tour - 1. fetch1 i = fetch2 i" by simp
      then have "legs rt conv fetch1 tour = legs rt conv fetch2 tour" by (rule legs_cong)
      with Some Inr show ?thesis by (simp add: calculateRoute_def)
    qed
  qed
qed

theorem calculateRoute_deterministic_witness:
  "leg exact plain_conv Rejected CODECA near_waypoint start
     = leg exact plain_conv (Body error_body) depot_waypoint near_waypoint start
   \<and> calculateRoute exact plain_conv short_fetch [near_container]
     = calculateRoute exact plain_conv short_then_down [near_container]"
proof -
  have "provider_failed Rejected" by (simp add: provider_failed_def)
  with provider_failed_error_body
  have "provider_failed Rejected \<and> provider_failed (Body error_body)
      \<and> lat depot_waypoint = lat CODECA \<and> lng depot_waypoint = lng CODECA
      \<and> lat near_waypoint = lat near_waypoint \<and> lng near_waypoint = lng near_waypoint"
    by (simp add: depot_waypoint_def CODECA_def)
  moreover have "\<forall>i\<le>length [near_container]. short_fetch i = short_then_down i"
    by (simp add: short_fetch_def short_then_down_def)
  ultimately show ?thesis
    using calculateRoute_deterministic [where ?r1.0 = Rejected and ?r2.0 = "Body error_body"
        and origin = CODECA and origin' = depot_waypoint and dest = near_waypoint
        and dest' = near_waypoint and ?conv1.0 = plain_conv and ?conv2.0 = plain_conv
        and t = start and containers = "[near_container]" and ?fetch1.0 = short_fetch
        and ?fetch2.0 = short_then_down and conv = plain_conv and rt = exact]
    by blast
qed

section \<open>C7: no savings record without a route identifier\<close>

lemma getDb_tables:
  "routeHistory (snd (getDb e w)) = routeHistory w"
  "routeHistory_next (snd (getDb e w)) = routeHistory_next w"
  "routeSavings (snd (getDb e w)) = routeSavings w"
  "routeSavings_next (snd (getDb e w)) = routeSavings_next w"
  by (simp_all add: getDb_def)

lemma saveRoute_savings:
  "routeSavings (snd (saveRoute e route w)) = routeSavings w"
  "routeSavings_next (snd (saveRoute e route w)) = routeSavings_next w"
  using getDb_tables(3,4) [of e w]
  by (auto simp: saveRoute_def Let_def split: prod.splits)

lemma saveRoute_no_database: "saveRoute no_database (route_values some_input) empty_world = (Inr None, empty_world)"
  by (simp add: saveRoute_def getDb_def no_database_def empty_world_def)

text \<open>
  Claim C7. Whenever \<^verbatim>\<open>saveRoute\<close> gives the mutation no identifier (it throws,
  it returns \<^verbatim>\<open>null\<close>, or the \<^verbatim>\<open>insertId\<close> of its result is undefined or 0), the
  mutation ends with an error thrown to the caller and the table of savings is as it
  was: \<^verbatim>\<open>saveRouteSavings\<close> is not reached.
\<close>

theorem no_orphan_savings:
  assumes "\<not> yields_id (fst (saveRoute e (route_values inp) w))"
  shows "(\<exists>err. fst (saveRoute_mutation e inp w) = Inl err)
     \<and> routeSavings (snd (saveRoute_mutation e inp w)) = routeSavings w
     \<and> routeSavings_next (snd (saveRoute_mutation e inp w)) = routeSavings_next w
     \<and> (fst (saveRoute e (route_values inp) w) = Inr None \<longrightarrow>
          fst (saveRoute_mutation e inp w) = Inl (Error ''Failed to save route''))
     \<and> ((\<exists>r. fst (saveRoute e (route_values inp) w) = Inr (Some r)) \<longrightarrow>
          fst (saveRoute_mutation e inp w) = Inl (Error ''Failed to get route ID from insert result''))"
proof -
  obtain res w' where sr: "saveRoute e (route_values inp) w = (res, w')"
    by (cases "saveRoute e (route_values inp) w")
  with saveRoute_savings [of e "route_values inp" w]
  have sav: "routeSavings w' = routeSavings w" "routeSavings_next w' = routeSavings_next w"
    by simp_all
  from assms sr have no: "\<not> yields_id res" by simp
  show ?thesis
  proof (cases res)
    case (Inl err)
    with sr sav show ?thesis by (simp add: saveRoute_mutation_def)
  next
    case (Inr opt)
    show ?thesis
    proof (cases opt)
      case None
      with Inr sr sav show ?thesis by (simp add: saveRoute_mutation_def)
    next
      case (Some r)
      with Inr no have "insertId r = None \<or> insertId r = Some 0"
        by (auto simp: yields_id_def split: option.splits)
      with Some Inr sr sav show ?thesis
        by (auto simp: saveRoute_mutation_def)
    qed
  qed
qed

theorem no_orphan_savings_witness:
  "\<not> yields_id (fst (saveRoute no_database (route_values some_input) empty_world))
   \<and> fst (saveRoute_mutation no_database some_input empty_world) = Inl (Error ''Failed to save route'')
   \<and> routeSavings (snd (saveRoute_mutation no_database some_input empty_world)) = []"
proof -
  have no: "\<not> yields_id (fst (saveRoute no_database (route_values some_input) empty_world))"
    by (simp add: saveRoute_no_database yields_id_def)
  have empty: "routeSavings empty_world = []" by (simp add: empty_world_def)
  from no_orphan_savings [OF no] no show ?thesis
    by (simp add: saveRoute_no_database empty)
qed

section \<open>C3: the identifier that saveRoute returns\<close>

text \<open>
  After its insert, \<^verbatim>\<open>saveRoute\<close> reads the row of the least \<^verbatim>\<open>id\<close>, not the one it
  has written: with an older row in the table, the identifier it returns is below the
  one the insert has generated.
\<close>

lemma sort_key_least:
  assumes "x \<in> set xs"
  shows "\<exists>y ys. sort_key f xs = y # ys \<and> f y \<le> f x"
proof (cases "sort_key f xs")
  case Nil
  then have "set (sort_key f xs) = {}" by simp
  with assms show ?thesis by simp
next
  case (Cons y ys)
  have "sorted (map f (sort_key f xs))" by (rule sorted_sort_key)
  with Cons have le: "\<forall>z \<in> set ys. f y \<le> f z" by simp
  from assms have "x \<in> set (sort_key f xs)" by simp
  with Cons le have "f y \<le> f x" by auto
  with Cons show ?thesis by simp
qed

lemma saveRoute_returns_older_id:
  assumes "db_handle w" "\<not> insert_route_throws e" "\<not> select_route_throws e"
    and "(i, r) \<in> set (routeHistory w)" "i < routeHistory_next w"
  shows "\<exists>m. fst (saveRoute e route w) = Inr (Some \<lparr>insertId = Some m\<rparr>) \<and> m < routeHistory_next w"
proof -
  let ?rows = "routeHistory w @ [(routeHistory_next w, route)]"
  from assms(4) have "(i, r) \<in> set ?rows" by simp
  from sort_key_least [OF this, of fst] obtain y ys where
    s: "sort_key fst ?rows = y # ys" and le: "fst y \<le> i" by auto
  from assms(1,2,3) s have "fst (saveRoute e route w) = Inr (Some \<lparr>insertId = Some (fst y)\<rparr>)"
    by (simp add: saveRoute_def getDb_def Let_def)
  with le assms(5) show ?thesis by auto
qed

text \<open>
  What a successful call does write: one row in each table, and the savings row with
  the identifier that is returned.
\<close>

lemma saveRoute_mutation_success:
  assumes "saveRoute_mutation e inp w = (Inr out, w')"
  shows "routeHistory w' = routeHistory w @ [(routeHistory_next w, route_values inp)]
     \<and> routeSavings w' = routeSavings w @ [(routeSavings_next w, savings_values (routeId out) inp)]
     \<and> success out"
proof -
  obtain res w1 where sr: "saveRoute e (route_values inp) w = (res, w1)"
    by (cases "saveRoute e (route_values inp) w")
  with assms obtain r rid where res: "res = Inr (Some r)" and r: "insertId r = Some rid"
    and rid: "rid \<noteq> 0"
    by (cases res) (auto simp: saveRoute_mutation_def split: option.splits if_splits prod.splits sum.splits)
  from sr res have w1: "db_handle w1"
    "routeHistory w1 = routeHistory w @ [(routeHistory_next w, route_values inp)]"
    "routeSavings w1 = routeSavings w" "routeSavings_next w1 = routeSavings_next w"
    by (auto simp: saveRoute_def getDb_def Let_def split: if_splits)
  obtain res2 w2 where ss: "saveRouteSavings e (savings_values rid inp) w1 = (res2, w2)"
    by (cases "saveRouteSavings e (savings_values rid inp) w1")
  with assms sr res r rid have out: "out = \<lparr>success = True, routeId = rid\<rparr>" and w2: "w' = w2"
    and ok: "\<exists>r. res2 = Inr r"
    by (auto simp: saveRoute_mutation_def split: sum.splits)
  from ss ok w1 have "routeHistory w2 = routeHistory w1"
    "routeSavings w2 = routeSavings w1 @ [(routeSavings_next w1, savings_values rid inp)]"
    by (auto simp: saveRouteSavings_def getDb_def Let_def split: if_splits)
  with w1 w2 out show ?thesis by simp
qed

text \<open>
  Claim C3 says that the savings record carries, and the caller gets, the identifier
  generated for the route record of this call. With one route of id 1 in the table the
  new route gets the id 2, while the mutation returns 1 and writes the savings record
  with \<^verbatim>\<open>routeId\<close> 1. The comment of the source, "Get the last inserted route",
  says what was meant; \<^verbatim>\<open>orderBy(routeHistory.id).limit(1)\<close> reads the first.
\<close>

theorem saveRoute_returns_first_id:
  "saveRoute_mutation good_env some_input one_route =
     (Inr \<lparr>success = True, routeId = 1\<rparr>,
      \<lparr>db_handle = True,
       routeHistory = [(1, old_route), (2, route_values some_input)], routeHistory_next = 3,
       routeSavings = [(1, savings_values 1 some_input)], routeSavings_next = 2\<rparr>)"
  by (simp add: saveRoute_mutation_def saveRoute_def saveRouteSavings_def getDb_def good_env_def
      one_route_def Let_def)

end
